theory Spec2Isabelle
  imports Main
begin

section \<open>Python values used by \<open>src/log.py\<close>\<close>

subsection \<open>Strings: the \<open>in\<close> operator and decimal formatting\<close>

text \<open>
  \<open>needle in hay\<close> on Python strings: \<open>needle\<close> occurs in \<open>hay\<close> as a contiguous
  run of characters. \<open>starts_with needle hay\<close> is \<open>hay.startswith(needle)\<close>.
\<close>

fun starts_with :: "string \<Rightarrow> string \<Rightarrow> bool" where
  "starts_with [] hay = True"
| "starts_with (c # cs) [] = False"
| "starts_with (c # cs) (d # ds) = (c = d \<and> starts_with cs ds)"

fun str_in :: "string \<Rightarrow> string \<Rightarrow> bool" where
  "str_in needle [] = (needle = [])"
| "str_in needle (d # ds) = (starts_with needle (d # ds) \<or> str_in needle ds)"

text \<open>\<open>str(n)\<close> for an integer, as an f-string field \<open>{n}\<close> renders it.\<close>

definition digit_char :: "nat \<Rightarrow> char" where
  "digit_char d = char_of (48 + d)"

function str_nat :: "nat \<Rightarrow> string" where
  "str_nat n = (if n < 10 then [digit_char n] else str_nat (n div 10) @ [digit_char (n mod 10)])"
  by pat_completeness auto
termination
  by (relation "measure id") auto

definition str_int :: "int \<Rightarrow> string" where
  "str_int i = (if i < 0 then CHR ''-'' # str_nat (nat (- i)) else str_nat (nat i))"

subsection \<open>Exceptions and outcomes\<close>

text \<open>
  \<open>exc\<close> are the instances of \<open>Exception\<close> that occur here; \<open>base_exc\<close> are the
  instances of \<open>BaseException\<close>: an \<open>Exception\<close>, the \<open>SystemExit\<close> that \<open>exit(code)\<close>
  raises, or a \<open>CancelledError\<close> (an \<open>except Exception\<close> clause does not catch the
  latter two).
\<close>

datatype exc = TimeoutError | AttributeError | TypeError | OtherError string

datatype base_exc = Exception exc | SystemExit int | CancelledError

datatype 'a outcome = Return 'a | Raise base_exc

subsection \<open>Log records and levels\<close>

text \<open>
  A \<open>logging.LogRecord\<close> as the filters read it: \<open>levelno\<close>, and \<open>formatted\<close>, which is
  the value of \<open>record.msg % record.args\<close> (the operator raises when the template and
  the arguments do not fit). A record carries more fields (logger name, location, time);
  they are the extension of the record type.
\<close>

record log_record =
  levelno :: int
  formatted :: "string outcome"

definition DEBUG :: int where "DEBUG = 10"
definition INFO :: int where "INFO = 20"
definition WARNING :: int where "WARNING = 30"
definition ERROR :: int where "ERROR = 40"
definition CRITICAL :: int where "CRITICAL = 50"

section \<open>The access-log filter\<close>

text \<open>
  \<^verbatim>\<open>
  class AiohttpAccessFilter(logging.Filter):
      def filter(self, record):
          msg = record.msg % record.args
          if record.levelno <= logging.INFO and 'Mozilla' not in msg:
              return False
          return True
  \<close>
\<close>

definition AiohttpAccessFilter_filter :: "'a log_record_scheme \<Rightarrow> bool outcome" where
  "AiohttpAccessFilter_filter record =
     (case formatted record of
        Raise e \<Rightarrow> Raise e
      | Return msg \<Rightarrow>
          if levelno record \<le> INFO \<and> \<not> str_in ''Mozilla'' msg then Return False
          else Return True)"

section \<open>Collaborators: bot client, event loop, storage layer\<close>

text \<open>
  \<open>SendMessage dest text\<close> is the coroutine object that
  \<open>env.bot.send_message(dest, text)\<close> returns; nothing is sent until the event loop
  runs it. A \<open>task\<close> is what \<open>env.loop.create_task\<close> was given: the coroutine
  \<open>exit_handler(prerequisite)\<close> or a bare notification coroutine.
\<close>

datatype awaitable = SendMessage int string

datatype task = ExitHandlerTask "awaitable option" | CoroTask awaitable

text \<open>
  The Telegram client as this module uses it: \<open>is_connected()\<close> and what awaiting
  \<open>disconnect()\<close> does. \<open>env.bot\<close> is \<open>None\<close> until the client has been created;
  \<open>env.MANAGER\<close> is the operator's chat.
\<close>

record client =
  is_connected :: bool
  disconnect :: "unit outcome"

record env =
  bot :: "client option"
  MANAGER :: int

text \<open>
  The event loop \<open>env.loop\<close> and the module's logger. \<open>call_later\<close> returns a fresh
  \<open>TimerHandle\<close> and keeps it in \<open>scheduled\<close>; \<open>TimerHandle.cancel()\<close> marks it, and
  a marked handle is never run; the loop runs the callback of an unmarked handle once,
  dropping the handle, and only while it is running. Every handle of this module
  carries the callback \<open>_exit_bot\<close> with the delay as its argument. \<open>logged\<close> holds the
  messages given to \<open>_logger.critical\<close>.
\<close>

record timer_handle =
  handle_id :: nat
  delay :: int
  cancelled :: bool

record world =
  is_running :: bool
  scheduled :: "timer_handle list"
  next_handle :: nat
  tasks :: "task list"
  logged :: "string list"

definition call_later :: "world \<Rightarrow> int \<Rightarrow> nat \<times> world" where
  "call_later w d =
     (next_handle w,
      w\<lparr>scheduled := scheduled w @ [\<lparr>handle_id = next_handle w, delay = d, cancelled = False\<rparr>],
        next_handle := Suc (next_handle w)\<rparr>)"

definition cancel :: "world \<Rightarrow> nat \<Rightarrow> world" where
  "cancel w h =
     w\<lparr>scheduled := map (\<lambda>t. if handle_id t = h then t\<lparr>cancelled := True\<rparr> else t) (scheduled w)\<rparr>"

definition create_task :: "world \<Rightarrow> task \<Rightarrow> world" where
  "create_task w t = w\<lparr>tasks := tasks w @ [t]\<rparr>"

definition critical :: "world \<Rightarrow> string \<Rightarrow> world" where
  "critical w m = w\<lparr>logged := logged w @ [m]\<rparr>"

section \<open>Shutdown\<close>

text \<open>
  \<^verbatim>\<open>
  def shutdown(prerequisite: Awaitable = None):
      if not env.loop.is_running():
          exit(1)
      asyncio.gather(env.loop.create_task(exit_handler(prerequisite)), return_exceptions=True)
  \<close>
\<close>

definition shutdown :: "world \<Rightarrow> awaitable option \<Rightarrow> unit outcome \<times> world" where
  "shutdown w prerequisite =
     (if \<not> is_running w then (Raise (SystemExit 1), w)
      else (Return (), create_task w (ExitHandlerTask prerequisite)))"

subsection \<open>The teardown coroutine\<close>

text \<open>
  What a run of \<open>exit_handler\<close> does is recorded as the list of its actions, in order,
  with the way it ends. \<open>Wait_for p t\<close> is \<open>await asyncio.wait_for(p, timeout=t)\<close>;
  by the contract of \<open>asyncio.wait_for\<close>, when the timeout passes first the awaited
  operation is cancelled (\<open>Cancel_awaitable\<close>) and \<open>TimeoutError\<close> is raised.
  \<open>Os_kill_SIGTERM\<close> is \<open>os.kill(os.getpid(), signal.SIGTERM)\<close>.
\<close>

datatype event =
    Wait_for awaitable nat
  | Cancel_awaitable awaitable
  | Log_critical string "exc option"
  | Bot_disconnect
  | Close_connections
  | Os_kill_SIGTERM

text \<open>
  A run ends as Python code does, by returning or raising, or it does not end at all
  because a signal terminated the process while it ran.
\<close>

datatype signal = SIGTERM

datatype ending = Ends "unit outcome" | Killed signal

type_synonym run = "event list \<times> ending"

datatype wait_result = Done | Fails base_exc | Too_slow

text \<open>
  What the environment decides: how the awaited prerequisite fares within a timeout,
  what awaiting \<open>Tortoise.close_connections()\<close> does, and what \<open>SIGTERM\<close> does to the
  process. This module installs no handler for the signal: \<open>sigterm_handler\<close> is \<open>None\<close>
  when the signal has its default disposition, which terminates the process inside
  \<open>os.kill\<close>; it is \<open>Some out\<close> when another part of the program has installed a
  handler, \<open>out\<close> being how the \<open>os.kill\<close> call then ends.
\<close>

record collaborators =
  awaited_within :: "awaitable \<Rightarrow> nat \<Rightarrow> wait_result"
  close_connections :: "unit outcome"
  sigterm_handler :: "unit outcome option"

definition asyncio_wait_for :: "collaborators \<Rightarrow> awaitable \<Rightarrow> nat \<Rightarrow> run" where
  "asyncio_wait_for co p t =
     (case awaited_within co p t of
        Done \<Rightarrow> ([Wait_for p t], Ends (Return ()))
      | Fails e \<Rightarrow> ([Wait_for p t], Ends (Raise e))
      | Too_slow \<Rightarrow>
          ([Wait_for p t, Cancel_awaitable p], Ends (Raise (Exception TimeoutError))))"

definition os_kill_SIGTERM :: "collaborators \<Rightarrow> run" where
  "os_kill_SIGTERM co =
     (case sigterm_handler co of
        None \<Rightarrow> ([Os_kill_SIGTERM], Killed SIGTERM)
      | Some out \<Rightarrow> ([Os_kill_SIGTERM], Ends out))"

text \<open>
  Statement sequencing, \<open>try/finally\<close> and the two \<open>except\<close> clauses. Nothing runs
  after the process has been killed, not even a \<open>finally\<close> block.
\<close>

fun then_run :: "run \<Rightarrow> run \<Rightarrow> run" where
  "then_run (es, Ends (Return u)) b = (es @ fst b, snd b)"
| "then_run (es, Ends (Raise e)) b = (es, Ends (Raise e))"
| "then_run (es, Killed s) b = (es, Killed s)"

fun try_finally :: "run \<Rightarrow> run \<Rightarrow> run" where
  "try_finally (es, Killed s) f = (es, Killed s)"
| "try_finally (es, Ends out) (fs, Ends (Return u)) = (es @ fs, Ends out)"
| "try_finally (es, Ends out) (fs, Ends (Raise e)) = (es @ fs, Ends (Raise e))"
| "try_finally (es, Ends out) (fs, Killed s) = (es @ fs, Killed s)"

fun try_except_TimeoutError :: "run \<Rightarrow> run \<Rightarrow> run" where
  "try_except_TimeoutError (es, Ends (Raise (Exception TimeoutError))) h = (es @ fst h, snd h)"
| "try_except_TimeoutError (es, out) h = (es, out)"

fun try_except_Exception :: "run \<Rightarrow> (exc \<Rightarrow> run) \<Rightarrow> run" where
  "try_except_Exception (es, Ends (Raise (Exception e))) h = (es @ fst (h e), snd (h e))"
| "try_except_Exception (es, out) h = (es, out)"

definition skip :: run where
  "skip = ([], Ends (Return ()))"

definition exit :: "int \<Rightarrow> run" where
  "exit code = ([], Ends (Raise (SystemExit code)))"

text \<open>
  \<^verbatim>\<open>
  async def exit_handler(prerequisite: Awaitable = None):
      try:
          if prerequisite:
              try:
                  await asyncio.wait_for(prerequisite, timeout=10)
              except asyncio.TimeoutError:
                  _logger.critical('Failed to gracefully exit: prerequisite timed out')
          try:
              if env.bot and env.bot.is_connected():
                  await env.bot.disconnect()
          finally:
              await Tortoise.close_connections()
      except Exception as e:
          _logger.critical('Failed to gracefully exit:', exc_info=e)
          os.kill(os.getpid(), signal.SIGTERM)
      exit(1)
  \<close>
\<close>

definition exit_handler :: "env \<Rightarrow> collaborators \<Rightarrow> awaitable option \<Rightarrow> run" where
  "exit_handler env co prerequisite =
     then_run
       (try_except_Exception
          (then_run
             (case prerequisite of
                None \<Rightarrow> skip
              | Some p \<Rightarrow>
                  try_except_TimeoutError (asyncio_wait_for co p 10)
                    ([Log_critical ''Failed to gracefully exit: prerequisite timed out'' None],
                     Ends (Return ())))
             (try_finally
                (case bot env of
                   None \<Rightarrow> skip
                 | Some b \<Rightarrow>
                     if is_connected b then ([Bot_disconnect], Ends (disconnect b)) else skip)
                ([Close_connections], Ends (close_connections co))))
          (\<lambda>e. then_run
                  ([Log_critical ''Failed to gracefully exit:'' (Some e)], Ends (Return ()))
                  (os_kill_SIGTERM co)))
       (exit 1)"

section \<open>The watchdog\<close>

text \<open>
  \<^verbatim>\<open>
  class _Watchdog:
      def __init__(self, delay: int = 5 * 60):
          self._watchdog = env.loop.call_later(delay, self._exit_bot, delay)

      @staticmethod
      def _exit_bot(delay):
          msg = f'Never heard from the bot for {delay} seconds. Exiting...'
          _logger.critical(msg)
          coro = None
          if env.bot is not None:
              coro = env.bot.send_message(env.MANAGER, f'WATCHDOG: {msg}')
          shutdown(prerequisite=coro)

      def fine(self, delay: int = 15 * 60):
          self._watchdog.cancel()
          self._watchdog = env.loop.call_later(delay, self._exit_bot, delay)
  \<close>
  The attribute \<open>_watchdog\<close> holds a \<open>TimerHandle\<close>; the model keeps its identity.
\<close>

record Watchdog =
  watchdog_handle :: nat

definition Watchdog_init :: "world \<Rightarrow> int \<Rightarrow> Watchdog \<times> world" where
  "Watchdog_init w d = (case call_later w d of (h, w') \<Rightarrow> (\<lparr>watchdog_handle = h\<rparr>, w'))"

definition exit_bot_msg :: "int \<Rightarrow> string" where
  "exit_bot_msg d = ''Never heard from the bot for '' @ str_int d @ '' seconds. Exiting...''"

definition exit_bot_coro :: "env \<Rightarrow> int \<Rightarrow> awaitable option" where
  "exit_bot_coro env d =
     (case bot env of
        None \<Rightarrow> None
      | Some b \<Rightarrow> Some (SendMessage (MANAGER env) (''WATCHDOG: '' @ exit_bot_msg d)))"

definition Watchdog_exit_bot :: "env \<Rightarrow> world \<Rightarrow> int \<Rightarrow> unit outcome \<times> world" where
  "Watchdog_exit_bot env w d = shutdown (critical w (exit_bot_msg d)) (exit_bot_coro env d)"

definition Watchdog_fine :: "Watchdog \<Rightarrow> world \<Rightarrow> int \<Rightarrow> Watchdog \<times> world" where
  "Watchdog_fine wd w d =
     (case call_later (cancel w (watchdog_handle wd)) d of
        (h, w') \<Rightarrow> (wd\<lparr>watchdog_handle := h\<rparr>, w'))"

text \<open>
  The loop running the callback of handle \<open>h\<close>: possible when the loop is running and
  \<open>h\<close> is scheduled and not cancelled; the handle leaves \<open>scheduled\<close> and
  \<open>_exit_bot(delay)\<close> runs. \<open>None\<close> when the loop cannot run \<open>h\<close>.
\<close>

definition run_timer :: "env \<Rightarrow> world \<Rightarrow> nat \<Rightarrow> (unit outcome \<times> world) option" where
  "run_timer env w h =
     (case find (\<lambda>t. handle_id t = h) (scheduled w) of
        None \<Rightarrow> None
      | Some t \<Rightarrow>
          if cancelled t \<or> \<not> is_running w then None
          else Some (Watchdog_exit_bot env
                       (w\<lparr>scheduled := filter (\<lambda>t. handle_id t \<noteq> h) (scheduled w)\<rparr>) (delay t)))"

definition pending :: "world \<Rightarrow> nat list" where
  "pending w = map handle_id (filter (\<lambda>t. \<not> cancelled t) (scheduled w))"

section \<open>The scheduler filter\<close>

text \<open>
  \<^verbatim>\<open>
  class _APSCFilter(logging.Filter):
      def __init__(self):
          super().__init__()
          self.count = 0
          self.watchdog = _Watchdog()

      def filter(self, record: logging.LogRecord) -> bool:
          msg = record.msg % record.args
          if 'skipped: maximum number of running instances reached' in msg:
              self.count += 1
              if self.count != 0 and self.count % 5 == 0:
                  coro = env.bot.send_message(
                      env.MANAGER,
                      f'RSS monitor tasks have conflicted too many times ({self.count})!\n'
                      + ('Please store the log and restart.\n(sometimes it may be caused by too many subscriptions)'
                         if self.count < 15 else
                         'Now the bot will restart.')
                      + '\n\n' + msg
                  )
                  if self.count >= 15:
                      _logger.critical(f'RSS monitor tasks have conflicted too many times ({self.count})! Exiting...')
                      shutdown(prerequisite=coro)
                  else:
                      env.loop.create_task(coro)
              return True
          if ' executed successfully' in msg:
              self.count = 0
              self.watchdog.fine()
              return False
          if 'Running job "run_monitor_task' in msg:
              return False
          return True
  \<close>
\<close>

record APSCFilter =
  count :: int
  watchdog :: Watchdog

definition APSCFilter_init :: "world \<Rightarrow> APSCFilter \<times> world" where
  "APSCFilter_init w = (case Watchdog_init w (5 * 60) of (wd, w') \<Rightarrow> (\<lparr>count = 0, watchdog = wd\<rparr>, w'))"

definition SKIPPED :: string where
  "SKIPPED = ''skipped: maximum number of running instances reached''"

definition EXECUTED :: string where
  "EXECUTED = '' executed successfully''"

definition RUNNING_JOB :: string where
  "RUNNING_JOB = ''Running job '' @ [CHR 0x22] @ ''run_monitor_task''"

definition conflict_head :: "int \<Rightarrow> string" where
  "conflict_head n = ''RSS monitor tasks have conflicted too many times ('' @ str_int n @ '')!''"

definition conflict_notice :: "int \<Rightarrow> string \<Rightarrow> string" where
  "conflict_notice n msg =
     conflict_head n @ [CHR 0x0A]
     @ (if n < 15
        then ''Please store the log and restart.'' @ [CHR 0x0A]
             @ ''(sometimes it may be caused by too many subscriptions)''
        else ''Now the bot will restart.'')
     @ [CHR 0x0A, CHR 0x0A] @ msg"

text \<open>\<open>env.bot.send_message(...)\<close>: an attribute of \<open>None\<close> does not exist.\<close>

definition bot_send_message :: "env \<Rightarrow> string \<Rightarrow> awaitable outcome" where
  "bot_send_message env text =
     (case bot env of
        None \<Rightarrow> Raise (Exception AttributeError)
      | Some b \<Rightarrow> Return (SendMessage (MANAGER env) text))"

definition APSCFilter_filter ::
  "env \<Rightarrow> APSCFilter \<times> world \<Rightarrow> 'a log_record_scheme \<Rightarrow> bool outcome \<times> (APSCFilter \<times> world)" where
  "APSCFilter_filter env st record =
     (case st of (self, w) \<Rightarrow>
      (case formatted record of
         Raise e \<Rightarrow> (Raise e, (self, w))
       | Return msg \<Rightarrow>
           if str_in SKIPPED msg then
             (let self1 = self\<lparr>count := count self + 1\<rparr> in
              if count self1 \<noteq> 0 \<and> count self1 mod 5 = 0 then
                (case bot_send_message env (conflict_notice (count self1) msg) of
                   Raise e \<Rightarrow> (Raise e, (self1, w))
                 | Return coro \<Rightarrow>
                     if count self1 \<ge> 15 then
                       (case shutdown (critical w (conflict_head (count self1) @ '' Exiting...''))
                               (Some coro) of
                          (Raise e, w') \<Rightarrow> (Raise e, (self1, w'))
                        | (Return u, w') \<Rightarrow> (Return True, (self1, w')))
                     else (Return True, (self1, create_task w (CoroTask coro))))
              else (Return True, (self1, w)))
           else if str_in EXECUTED msg then
             (case Watchdog_fine (watchdog self) w (15 * 60) of
                (wd, w') \<Rightarrow> (Return False, (self\<lparr>count := 0, watchdog := wd\<rparr>, w')))
           else if str_in RUNNING_JOB msg then (Return False, (self, w))
           else (Return True, (self, w))))"

text \<open>
  The records of one log source reach the filter one after the other. An exception
  raised by the filter goes to the code that logged the record, and the filter object
  keeps its state; \<open>SystemExit\<close> ends the process, so no later record is seen.
\<close>

fun feed ::
  "env \<Rightarrow> APSCFilter \<times> world \<Rightarrow> 'a log_record_scheme list
     \<Rightarrow> bool outcome list \<times> (APSCFilter \<times> world)" where
  "feed env st [] = ([], st)"
| "feed env st (r # rs) =
     (case APSCFilter_filter env st r of
        (Raise (SystemExit c), st') \<Rightarrow> ([Raise (SystemExit c)], st')
      | (out, st') \<Rightarrow> (case feed env st' rs of (outs, st'') \<Rightarrow> (out # outs, st'')))"

section \<open>Vocabulary of the properties\<close>

text \<open>
  The two halves of \<open>exit_handler\<close>: the \<open>try/finally\<close> block that disconnects the
  client and closes the storage, and what surrounds a block (\<open>except Exception\<close>, then
  \<open>exit(1)\<close>).
\<close>

definition teardown_body :: "env \<Rightarrow> collaborators \<Rightarrow> run" where
  "teardown_body env co =
     try_finally
       (case bot env of
          None \<Rightarrow> skip
        | Some b \<Rightarrow> if is_connected b then ([Bot_disconnect], Ends (disconnect b)) else skip)
       ([Close_connections], Ends (close_connections co))"

definition finish :: "collaborators \<Rightarrow> run \<Rightarrow> run" where
  "finish co a =
     then_run
       (try_except_Exception a
          (\<lambda>e. then_run
                  ([Log_critical ''Failed to gracefully exit:'' (Some e)], Ends (Return ()))
                  (os_kill_SIGTERM co)))
       (exit 1)"

text \<open>
  \<open>disconnect_attempted\<close>: \<open>env.bot and env.bot.is_connected()\<close>.
  \<open>no_step_raises\<close>: the wait for the prerequisite returns or times out, the disconnect,
  when attempted, returns, and the storage close returns.
\<close>

definition disconnect_attempted :: "env \<Rightarrow> bool" where
  "disconnect_attempted env = (case bot env of None \<Rightarrow> False | Some b \<Rightarrow> is_connected b)"

definition no_step_raises :: "env \<Rightarrow> collaborators \<Rightarrow> awaitable option \<Rightarrow> bool" where
  "no_step_raises env co prerequisite =
     ((case prerequisite of
         None \<Rightarrow> True
       | Some p \<Rightarrow>
           (case awaited_within co p 10 of
              Done \<Rightarrow> True
            | Too_slow \<Rightarrow> True
            | Fails e \<Rightarrow> e = Exception TimeoutError))
      \<and> (case bot env of
            None \<Rightarrow> True
          | Some b \<Rightarrow> \<not> is_connected b \<or> disconnect b = Return ())
      \<and> close_connections co = Return ())"

text \<open>
  Sample collaborators, environments and loops for the concrete runs. In all of them
  \<open>SIGTERM\<close> has its default disposition.
\<close>

definition never_in_time :: "awaitable \<Rightarrow> nat \<Rightarrow> wait_result" where
  "never_in_time p t = Too_slow"

definition always_in_time :: "awaitable \<Rightarrow> nat \<Rightarrow> wait_result" where
  "always_in_time p t = Done"


definition slow_collaborators :: collaborators where
  "slow_collaborators =
     \<lparr>awaited_within = never_in_time, close_connections = Return (), sigterm_handler = None\<rparr>"

definition prompt_collaborators :: collaborators where
  "prompt_collaborators =
     \<lparr>awaited_within = always_in_time, close_connections = Return (), sigterm_handler = None\<rparr>"



definition no_bot :: env where
  "no_bot = \<lparr>bot = None, MANAGER = 42\<rparr>"

definition with_bot :: env where
  "with_bot = \<lparr>bot = Some \<lparr>is_connected = True, disconnect = Return ()\<rparr>, MANAGER = 42\<rparr>"

definition failing_bot :: env where
  "failing_bot =
     \<lparr>bot = Some \<lparr>is_connected = True, disconnect = Raise (Exception (OtherError ''network''))\<rparr>,
      MANAGER = 42\<rparr>"

definition cancelled_bot :: env where
  "cancelled_bot =
     \<lparr>bot = Some \<lparr>is_connected = True, disconnect = Raise CancelledError\<rparr>, MANAGER = 42\<rparr>"

definition running_loop :: world where
  "running_loop = \<lparr>is_running = True, scheduled = [], next_handle = 0, tasks = [], logged = []\<rparr>"

definition stopped_loop :: world where
  "stopped_loop = \<lparr>is_running = False, scheduled = [], next_handle = 0, tasks = [], logged = []\<rparr>"

text \<open>
  Signals, as the filter classifies a record: a failure signal is a record whose
  formatted message contains the failure pattern; a heartbeat is one that contains the
  heartbeat pattern and not the failure pattern. \<open>state_after\<close> is the state of the
  filter object and of the loop once the records have been filtered.
\<close>

definition failure_signal :: "'a log_record_scheme \<Rightarrow> bool" where
  "failure_signal r = (case formatted r of Return msg \<Rightarrow> str_in SKIPPED msg | Raise e \<Rightarrow> False)"

definition heartbeat_signal :: "'a log_record_scheme \<Rightarrow> bool" where
  "heartbeat_signal r =
     (case formatted r of
        Return msg \<Rightarrow> \<not> str_in SKIPPED msg \<and> str_in EXECUTED msg
      | Raise e \<Rightarrow> False)"

definition state_after ::
  "env \<Rightarrow> APSCFilter \<times> world \<Rightarrow> 'a log_record_scheme list \<Rightarrow> APSCFilter \<times> world" where
  "state_after env st rs = snd (feed env st rs)"

text \<open>
  What a step handed to the loop: \<open>new_tasks w w'\<close> are the tasks of \<open>w'\<close> beyond those
  of \<open>w\<close>. A task carries a notification when it is the notification coroutine itself
  or a teardown with one as its prerequisite. \<open>escalation_tasks env n msg\<close> are the
  tasks expected of the failure signal that brings the counter to \<open>n\<close>.
\<close>

definition new_tasks :: "world \<Rightarrow> world \<Rightarrow> task list" where
  "new_tasks w w' = drop (length (tasks w)) (tasks w')"

fun is_notification :: "task \<Rightarrow> bool" where
  "is_notification (CoroTask c) = True"
| "is_notification (ExitHandlerTask p) = (p \<noteq> None)"

fun is_teardown :: "task \<Rightarrow> bool" where
  "is_teardown (CoroTask c) = False"
| "is_teardown (ExitHandlerTask p) = True"

definition escalation_tasks :: "env \<Rightarrow> int \<Rightarrow> string \<Rightarrow> task list" where
  "escalation_tasks env n msg =
     (if n mod 5 = 0
      then [if n < 15 then CoroTask (SendMessage (MANAGER env) (conflict_notice n msg))
            else ExitHandlerTask (Some (SendMessage (MANAGER env) (conflict_notice n msg)))]
      else [])"

definition conflict_record :: log_record where
  "conflict_record = \<lparr>levelno = 30, formatted = Return (''Job x '' @ SKIPPED)\<rparr>"

text \<open>
  The life of the watchdog after its creation: it is reset (\<open>fine(delay)\<close>, from the
  filter's heartbeat rule or from another caller), or the loop runs the callback of a
  handle. \<open>wd_run\<close> applies a sequence of such events.
\<close>

datatype wd_event = Reset int | Expire nat

fun wd_step :: "env \<Rightarrow> Watchdog \<times> world \<Rightarrow> wd_event \<Rightarrow> Watchdog \<times> world" where
  "wd_step env (wd, w) (Reset d) = Watchdog_fine wd w d"
| "wd_step env (wd, w) (Expire h) =
     (case run_timer env w h of None \<Rightarrow> (wd, w) | Some (out, w') \<Rightarrow> (wd, w'))"

definition wd_run :: "env \<Rightarrow> Watchdog \<times> world \<Rightarrow> wd_event list \<Rightarrow> Watchdog \<times> world" where
  "wd_run env st evs = foldl (wd_step env) st evs"

text \<open>
  \<open>handles_ok\<close>: the handles of the loop are distinct, each was issued by the loop,
  and a handle that is not cancelled is the one the watchdog holds. A handle is
  \<open>retired\<close> when it was issued and is not pending.
\<close>

definition handles_ok :: "Watchdog \<times> world \<Rightarrow> bool" where
  "handles_ok st =
     (case st of (wd, w) \<Rightarrow>
        distinct (map handle_id (scheduled w))
        \<and> list_all (\<lambda>t. handle_id t < next_handle w) (scheduled w)
        \<and> list_all (\<lambda>t. \<not> cancelled t \<longrightarrow> handle_id t = watchdog_handle wd) (scheduled w))"

definition retired :: "world \<Rightarrow> nat \<Rightarrow> bool" where
  "retired w h = (h < next_handle w \<and> h \<notin> set (pending w))"

definition rearmed_loop :: world where
  "rearmed_loop =
     \<lparr>is_running = True,
      scheduled = [\<lparr>handle_id = 0, delay = 300, cancelled = True\<rparr>,
                   \<lparr>handle_id = 1, delay = 900, cancelled = False\<rparr>],
      next_handle = 2, tasks = [], logged = []\<rparr>"

definition expired_loop :: world where
  "expired_loop =
     \<lparr>is_running = True,
      scheduled = [\<lparr>handle_id = 0, delay = 300, cancelled = True\<rparr>],
      next_handle = 2,
      tasks = [ExitHandlerTask (exit_bot_coro with_bot 900)],
      logged = [exit_bot_msg 900]\<rparr>"

section \<open>Properties\<close>

subsection \<open>Substring test\<close>

lemma starts_with_iff: "starts_with needle hay \<longleftrightarrow> (\<exists>s. hay = needle @ s)"
  by (induction needle hay rule: starts_with.induct) auto

lemma str_in_iff: "str_in needle hay \<longleftrightarrow> (\<exists>p s. hay = p @ needle @ s)"
proof (induction hay)
  case Nil
  then show ?case by auto
next
  case (Cons d ds)
  show ?case
  proof
    assume "str_in needle (d # ds)"
    then consider "starts_with needle (d # ds)" | "str_in needle ds" by auto
    then show "\<exists>p s. d # ds = p @ needle @ s"
    proof cases
      case 1
      then obtain s where "d # ds = needle @ s" using starts_with_iff by blast
      then have "d # ds = [] @ needle @ s" by simp
      then show ?thesis by blast
    next
      case 2
      then obtain p s where "ds = p @ needle @ s" using Cons.IH by blast
      then have "d # ds = (d # p) @ needle @ s" by simp
      then show ?thesis by blast
    qed
  next
    assume "\<exists>p s. d # ds = p @ needle @ s"
    then obtain p s where ps: "d # ds = p @ needle @ s" by blast
    show "str_in needle (d # ds)"
    proof (cases p)
      case Nil
      with ps have "starts_with needle (d # ds)" using starts_with_iff by auto
      then show ?thesis by simp
    next
      case (Cons a p')
      with ps have "ds = p' @ needle @ s" by simp
      then have "str_in needle ds" using Cons.IH by blast
      then show ?thesis by simp
    qed
  qed
qed

subsection \<open>Access-log filter\<close>

text \<open>
  C4, as the code has it. The filter formats the message before it looks at the level.
  For an access-log record whose message formats to \<open>msg\<close>: the filter returns \<open>False\<close>
  (suppress) when the level is at most \<open>INFO\<close> and \<open>msg\<close> does not contain the marker
  \<open>Mozilla\<close>, and \<open>True\<close> (pass) when the level is above \<open>INFO\<close> or \<open>msg\<close> contains
  the marker. For a record whose formatting raises, the filter raises the same error,
  whatever the level. The result depends on the level and on the result of the
  formatting only: two records that agree on both get the same answer, whatever else
  they carry.
\<close>

theorem access_filter_decision:
  fixes r :: "'a log_record_scheme" and r' :: "'b log_record_scheme"
  shows "(formatted r = Return msg \<longrightarrow>
            AiohttpAccessFilter_filter r =
              Return (\<not> (levelno r \<le> INFO \<and> \<not> str_in ''Mozilla'' msg)))
       \<and> (formatted r = Raise e \<longrightarrow> AiohttpAccessFilter_filter r = Raise e)
       \<and> (levelno r = levelno r' \<and> formatted r = formatted r' \<longrightarrow>
            AiohttpAccessFilter_filter r = AiohttpAccessFilter_filter r')"
  by (auto simp: AiohttpAccessFilter_filter_def split: outcome.splits)

theorem access_filter_decision_witness:
  "AiohttpAccessFilter_filter \<lparr>levelno = 20, formatted = Return ''GET / curl/8.0''\<rparr> = Return False
   \<and> AiohttpAccessFilter_filter \<lparr>levelno = 20, formatted = Raise (Exception TypeError)\<rparr>
       = Raise (Exception TypeError)
   \<and> AiohttpAccessFilter_filter \<lparr>levelno = 20, formatted = Return ''GET / curl/8.0''\<rparr>
       = AiohttpAccessFilter_filter
           \<lparr>levelno = 20, formatted = Return ''GET / curl/8.0'', \<dots> = ''aiohttp.access''\<rparr>"
proof -
  let ?r = "\<lparr>levelno = 20, formatted = Return ''GET / curl/8.0''\<rparr>"
  let ?r' = "\<lparr>levelno = 20, formatted = Return ''GET / curl/8.0'', \<dots> = ''aiohttp.access''\<rparr>"
  let ?q = "\<lparr>levelno = 20, formatted = Raise (Exception TypeError)\<rparr>"
  have a: "formatted ?r = Return ''GET / curl/8.0''"
    and b: "levelno ?r = levelno ?r' \<and> formatted ?r = formatted ?r'"
    and c: "formatted ?q = Raise (Exception TypeError)"
    by simp_all
  note T = access_filter_decision [of ?r "''GET / curl/8.0''" _ ?r']
  have "AiohttpAccessFilter_filter ?r
          = Return (\<not> (levelno ?r \<le> INFO \<and> \<not> str_in ''Mozilla'' ''GET / curl/8.0''))"
    by (rule mp [OF conjunct1 [OF T] a])
  then have 1: "AiohttpAccessFilter_filter ?r = Return False"
    by (simp add: INFO_def)
  have 2: "AiohttpAccessFilter_filter ?q = Raise (Exception TypeError)"
    by (rule mp [OF conjunct1 [OF conjunct2 [OF access_filter_decision [of ?q _ "Exception TypeError" ?q]]] c])
  have 3: "AiohttpAccessFilter_filter ?r = AiohttpAccessFilter_filter ?r'"
    by (rule mp [OF conjunct2 [OF conjunct2 [OF T]] b])
  show ?thesis
    using 1 2 3 by (intro conjI)
qed

text \<open>
  A record at level \<open>ERROR\<close>, above \<open>INFO\<close>, whose arguments do not fit its template:
  the filter does not pass it, it raises.
\<close>

theorem access_filter_raises_counterexample:
  "INFO < levelno \<lparr>levelno = 40, formatted = Raise (Exception TypeError)\<rparr>
   \<and> AiohttpAccessFilter_filter \<lparr>levelno = 40, formatted = Raise (Exception TypeError)\<rparr>
       = Raise (Exception TypeError)"
  by (simp add: AiohttpAccessFilter_filter_def INFO_def)

subsection \<open>Timers of the loop\<close>

lemma pending_cancel_list:
  "map handle_id (filter (\<lambda>t. \<not> cancelled t)
      (map (\<lambda>t. if handle_id t = h then t\<lparr>cancelled := True\<rparr> else t) ts))
   = filter (\<lambda>x. x \<noteq> h) (map handle_id (filter (\<lambda>t. \<not> cancelled t) ts))"
  by (induction ts) auto

lemma pending_cancel: "pending (cancel w h) = filter (\<lambda>x. x \<noteq> h) (pending w)"
  by (simp add: pending_def cancel_def pending_cancel_list)

lemma pending_call_later: "pending (snd (call_later w d)) = pending w @ [next_handle w]"
  by (simp add: pending_def call_later_def)

lemma Watchdog_fine_eq:
  "Watchdog_fine wd w d =
     (wd\<lparr>watchdog_handle := next_handle w\<rparr>, snd (call_later (cancel w (watchdog_handle wd)) d))"
  by (simp add: Watchdog_fine_def call_later_def cancel_def)

lemma pending_fine:
  "pending (snd (Watchdog_fine wd w d))
     = filter (\<lambda>x. x \<noteq> watchdog_handle wd) (pending w) @ [next_handle w]"
  by (simp add: Watchdog_fine_eq pending_call_later pending_cancel) (simp add: cancel_def)

lemma fine_frame:
  "tasks (snd (Watchdog_fine wd w d)) = tasks w"
  "logged (snd (Watchdog_fine wd w d)) = logged w"
  "is_running (snd (Watchdog_fine wd w d)) = is_running w"
  "next_handle (snd (Watchdog_fine wd w d)) = Suc (next_handle w)"
  "last (scheduled (snd (Watchdog_fine wd w d)))
     = \<lparr>handle_id = next_handle w, delay = d, cancelled = False\<rparr>"
  by (simp_all add: Watchdog_fine_eq call_later_def cancel_def)

subsection \<open>Scheduler filter: heartbeat, job start, no match\<close>

text \<open>
  C2, as the code has it: the heartbeat pattern is \<open>' executed successfully'\<close>, with
  the leading space. For every record whose formatted message contains it and does not
  contain the failure pattern, the filter returns \<open>False\<close>, sets the counter to 0 whatever
  it was, and re-arms the watchdog: the handle it held is cancelled and a new one, with
  delay \<open>15 * 60 = 900\<close>, is scheduled and kept. No task is created and nothing is
  logged, so no notification is sent.
\<close>

theorem heartbeat_resets:
  fixes r :: "'a log_record_scheme"
  assumes "formatted r = Return msg" and "str_in EXECUTED msg" and "\<not> str_in SKIPPED msg"
  shows "APSCFilter_filter env (self, w) r =
           (Return False,
            (self\<lparr>count := 0, watchdog := fst (Watchdog_fine (watchdog self) w (15 * 60))\<rparr>,
             snd (Watchdog_fine (watchdog self) w (15 * 60))))
       \<and> watchdog_handle (fst (Watchdog_fine (watchdog self) w (15 * 60))) = next_handle w
       \<and> pending (snd (Watchdog_fine (watchdog self) w (15 * 60)))
           = filter (\<lambda>h. h \<noteq> watchdog_handle (watchdog self)) (pending w) @ [next_handle w]
       \<and> last (scheduled (snd (Watchdog_fine (watchdog self) w (15 * 60))))
           = \<lparr>handle_id = next_handle w, delay = 900, cancelled = False\<rparr>
       \<and> tasks (snd (Watchdog_fine (watchdog self) w (15 * 60))) = tasks w
       \<and> logged (snd (Watchdog_fine (watchdog self) w (15 * 60))) = logged w"
proof -
  have "APSCFilter_filter env (self, w) r =
           (Return False,
            (self\<lparr>count := 0, watchdog := fst (Watchdog_fine (watchdog self) w (15 * 60))\<rparr>,
             snd (Watchdog_fine (watchdog self) w (15 * 60))))"
    using assms by (simp add: APSCFilter_filter_def split: prod.splits)
  moreover have "watchdog_handle (fst (Watchdog_fine (watchdog self) w (15 * 60))) = next_handle w"
    by (simp add: Watchdog_fine_eq)
  ultimately show ?thesis
    using pending_fine [of "watchdog self" w "15 * 60"] fine_frame [of "watchdog self" w "15 * 60"]
    by simp
qed

theorem heartbeat_resets_witness:
  "APSCFilter_filter \<lparr>bot = None, MANAGER = 0\<rparr>
       (\<lparr>count = 3, watchdog = \<lparr>watchdog_handle = 0\<rparr>\<rparr>,
        \<lparr>is_running = True, scheduled = [\<lparr>handle_id = 0, delay = 300, cancelled = False\<rparr>],
          next_handle = 1, tasks = [], logged = []\<rparr>)
       \<lparr>levelno = 20, formatted = Return ''Job x executed successfully''\<rparr>
     = (Return False,
        (\<lparr>count = 0, watchdog = \<lparr>watchdog_handle = 1\<rparr>\<rparr>,
         \<lparr>is_running = True,
           scheduled = [\<lparr>handle_id = 0, delay = 300, cancelled = True\<rparr>,
                        \<lparr>handle_id = 1, delay = 900, cancelled = False\<rparr>],
           next_handle = 2, tasks = [], logged = []\<rparr>))"
proof -
  have a: "formatted \<lparr>levelno = 20, formatted = Return ''Job x executed successfully''\<rparr>
             = Return ''Job x executed successfully''"
    by simp
  have b: "str_in EXECUTED ''Job x executed successfully''"
    by (simp add: EXECUTED_def)
  have c: "\<not> str_in SKIPPED ''Job x executed successfully''"
    by (simp add: SKIPPED_def)
  show ?thesis
    using heartbeat_resets [OF a b c, of "\<lparr>bot = None, MANAGER = 0\<rparr>"
        "\<lparr>count = 3, watchdog = \<lparr>watchdog_handle = 0\<rparr>\<rparr>"
        "\<lparr>is_running = True, scheduled = [\<lparr>handle_id = 0, delay = 300, cancelled = False\<rparr>],
          next_handle = 1, tasks = [], logged = []\<rparr>"]
    by (simp add: Watchdog_fine_def call_later_def cancel_def)
qed

text \<open>
  The message \<open>executed successfully\<close> alone contains the words of the claim but not
  the pattern of the code: the record passes, the counter stays at 3 and the watchdog is
  not touched.
\<close>

theorem heartbeat_pattern_counterexample:
  "str_in ''executed successfully'' ''executed successfully''
   \<and> \<not> str_in SKIPPED ''executed successfully''
   \<and> APSCFilter_filter \<lparr>bot = None, MANAGER = 0\<rparr>
       (\<lparr>count = 3, watchdog = \<lparr>watchdog_handle = 0\<rparr>\<rparr>,
        \<lparr>is_running = True, scheduled = [\<lparr>handle_id = 0, delay = 300, cancelled = False\<rparr>],
          next_handle = 1, tasks = [], logged = []\<rparr>)
       \<lparr>levelno = 20, formatted = Return ''executed successfully''\<rparr>
     = (Return True,
        (\<lparr>count = 3, watchdog = \<lparr>watchdog_handle = 0\<rparr>\<rparr>,
         \<lparr>is_running = True, scheduled = [\<lparr>handle_id = 0, delay = 300, cancelled = False\<rparr>],
           next_handle = 1, tasks = [], logged = []\<rparr>))"
  by (simp add: APSCFilter_filter_def SKIPPED_def EXECUTED_def RUNNING_JOB_def)

text \<open>
  C3, as the code has it: the job-start pattern is \<open>'Running job "run_monitor_task'\<close>.
  For every record whose formatted message contains neither the failure pattern nor the
  heartbeat pattern: if it contains the job-start pattern the filter returns \<open>False\<close>,
  otherwise it returns \<open>True\<close>; in both cases the counter, the watchdog, the loop and
  the log are unchanged.
\<close>

theorem running_job_and_default:
  fixes r :: "'a log_record_scheme"
  assumes "formatted r = Return msg" and "\<not> str_in SKIPPED msg" and "\<not> str_in EXECUTED msg"
  shows "(str_in RUNNING_JOB msg \<longrightarrow> APSCFilter_filter env (self, w) r = (Return False, (self, w)))
       \<and> (\<not> str_in RUNNING_JOB msg \<longrightarrow> APSCFilter_filter env (self, w) r = (Return True, (self, w)))"
  using assms by (simp add: APSCFilter_filter_def)

theorem running_job_and_default_witness:
  "APSCFilter_filter \<lparr>bot = None, MANAGER = 0\<rparr>
       (\<lparr>count = 2, watchdog = \<lparr>watchdog_handle = 0\<rparr>\<rparr>,
        \<lparr>is_running = True, scheduled = [], next_handle = 1, tasks = [], logged = []\<rparr>)
       \<lparr>levelno = 20, formatted = Return (''Running job '' @ [CHR 0x22] @ ''run_monitor_task (trigger)'')\<rparr>
     = (Return False,
        (\<lparr>count = 2, watchdog = \<lparr>watchdog_handle = 0\<rparr>\<rparr>,
         \<lparr>is_running = True, scheduled = [], next_handle = 1, tasks = [], logged = []\<rparr>))
   \<and> APSCFilter_filter \<lparr>bot = None, MANAGER = 0\<rparr>
       (\<lparr>count = 2, watchdog = \<lparr>watchdog_handle = 0\<rparr>\<rparr>,
        \<lparr>is_running = True, scheduled = [], next_handle = 1, tasks = [], logged = []\<rparr>)
       \<lparr>levelno = 20, formatted = Return ''Scheduler started''\<rparr>
     = (Return True,
        (\<lparr>count = 2, watchdog = \<lparr>watchdog_handle = 0\<rparr>\<rparr>,
         \<lparr>is_running = True, scheduled = [], next_handle = 1, tasks = [], logged = []\<rparr>))"
proof -
  let ?m = "''Running job '' @ [CHR 0x22] @ ''run_monitor_task (trigger)''"
  let ?e = "\<lparr>bot = None, MANAGER = 0\<rparr>"
  let ?s = "\<lparr>count = 2, watchdog = \<lparr>watchdog_handle = 0\<rparr>\<rparr>"
  let ?w = "\<lparr>is_running = True, scheduled = [], next_handle = 1, tasks = [], logged = []\<rparr>"
  have a: "formatted \<lparr>levelno = 20, formatted = Return ?m\<rparr> = Return ?m"
    by simp
  have b: "\<not> str_in SKIPPED ?m" "\<not> str_in EXECUTED ?m" "str_in RUNNING_JOB ?m"
    by (simp_all add: SKIPPED_def EXECUTED_def RUNNING_JOB_def)
  have a': "formatted \<lparr>levelno = 20, formatted = Return ''Scheduler started''\<rparr>
              = Return ''Scheduler started''"
    by simp
  have b': "\<not> str_in SKIPPED ''Scheduler started''" "\<not> str_in EXECUTED ''Scheduler started''"
    "\<not> str_in RUNNING_JOB ''Scheduler started''"
    by (simp_all add: SKIPPED_def EXECUTED_def RUNNING_JOB_def)
  have "APSCFilter_filter ?e (?s, ?w) \<lparr>levelno = 20, formatted = Return ?m\<rparr>
          = (Return False, (?s, ?w))"
    using running_job_and_default [OF a b(1) b(2), of ?e ?s ?w] b(3) by blast
  moreover have "APSCFilter_filter ?e (?s, ?w) \<lparr>levelno = 20, formatted = Return ''Scheduler started''\<rparr>
          = (Return True, (?s, ?w))"
    using running_job_and_default [OF a' b'(1) b'(2), of ?e ?s ?w] b'(3) by blast
  ultimately show ?thesis by blast
qed

text \<open>
  A message that announces another job contains \<open>Running job \<close> and matches neither
  earlier rule, and the record passes.
\<close>

theorem running_job_pattern_counterexample:
  "str_in ''Running job '' (''Running job '' @ [CHR 0x22] @ ''cleanup'' @ [CHR 0x22])
   \<and> \<not> str_in SKIPPED (''Running job '' @ [CHR 0x22] @ ''cleanup'' @ [CHR 0x22])
   \<and> \<not> str_in EXECUTED (''Running job '' @ [CHR 0x22] @ ''cleanup'' @ [CHR 0x22])
   \<and> fst (APSCFilter_filter \<lparr>bot = None, MANAGER = 0\<rparr>
       (\<lparr>count = 0, watchdog = \<lparr>watchdog_handle = 0\<rparr>\<rparr>,
        \<lparr>is_running = True, scheduled = [\<lparr>handle_id = 0, delay = 300, cancelled = False\<rparr>],
          next_handle = 1, tasks = [], logged = []\<rparr>)
       \<lparr>levelno = 20, formatted = Return (''Running job '' @ [CHR 0x22] @ ''cleanup'' @ [CHR 0x22])\<rparr>)
     = Return True"
  by (simp add: APSCFilter_filter_def SKIPPED_def EXECUTED_def RUNNING_JOB_def)

subsection \<open>The teardown coroutine\<close>

lemma then_run_append:
  "then_run (es @ fst a, snd a) b = (es @ fst (then_run a b), snd (then_run a b))"
  by (cases "(a, b)" rule: then_run.cases) auto

lemma try_except_Exception_append:
  "try_except_Exception (es @ fst a, snd a) h
     = (es @ fst (try_except_Exception a h), snd (try_except_Exception a h))"
  by (cases "(a, h)" rule: try_except_Exception.cases) auto


lemma finish_append:
  "finish co (es @ fst a, snd a) = (es @ fst (finish co a), snd (finish co a))"
  unfolding finish_def
  by (simp only: try_except_Exception_append then_run_append)

lemma then_run_skip: "then_run skip a = a"
  by (simp add: skip_def)

lemma exit_handler_None: "exit_handler env co None = finish co (teardown_body env co)"
  by (simp add: exit_handler_def finish_def teardown_body_def then_run_skip)

lemma exit_handler_Some:
  "exit_handler env co (Some p) =
     finish co (then_run
       (try_except_TimeoutError (asyncio_wait_for co p 10)
          ([Log_critical ''Failed to gracefully exit: prerequisite timed out'' None],
           Ends (Return ())))
       (teardown_body env co))"
  by (simp add: exit_handler_def finish_def teardown_body_def)

lemma exit_handler_timeout:
  assumes "awaited_within co p 10 = Too_slow"
  shows "exit_handler env co (Some p) =
           ([Wait_for p 10, Cancel_awaitable p,
             Log_critical ''Failed to gracefully exit: prerequisite timed out'' None]
              @ fst (exit_handler env co None),
            snd (exit_handler env co None))"
  using assms finish_append [of co "[Wait_for p 10, Cancel_awaitable p,
             Log_critical ''Failed to gracefully exit: prerequisite timed out'' None]" "teardown_body env co"]
  by (simp add: exit_handler_Some exit_handler_None asyncio_wait_for_def)

lemma exit_handler_done:
  assumes "awaited_within co p 10 = Done"
  shows "exit_handler env co (Some p) =
           (Wait_for p 10 # fst (exit_handler env co None), snd (exit_handler env co None))"
  using assms finish_append [of co "[Wait_for p 10]" "teardown_body env co"]
  by (simp add: exit_handler_Some exit_handler_None asyncio_wait_for_def)

lemma exit_handler_inner_timeout:
  assumes "awaited_within co p 10 = Fails (Exception TimeoutError)"
  shows "exit_handler env co (Some p) =
           ([Wait_for p 10, Log_critical ''Failed to gracefully exit: prerequisite timed out'' None]
              @ fst (exit_handler env co None),
            snd (exit_handler env co None))"
  using assms finish_append [of co "[Wait_for p 10,
             Log_critical ''Failed to gracefully exit: prerequisite timed out'' None]" "teardown_body env co"]
  by (simp add: exit_handler_Some exit_handler_None asyncio_wait_for_def)



lemma fst_teardown_body:
  "fst (teardown_body env co)
     = (if disconnect_attempted env then [Bot_disconnect] else []) @ [Close_connections]"
  by (cases "close_connections co")
     (auto simp: teardown_body_def disconnect_attempted_def skip_def split: option.splits)

lemma snd_teardown_body:
  "snd (teardown_body env co)
     = Ends (case close_connections co of
               Raise e \<Rightarrow> Raise e
             | Return u \<Rightarrow> (case bot env of
                              None \<Rightarrow> Return ()
                            | Some b \<Rightarrow> if is_connected b then disconnect b else Return ()))"
  by (cases "close_connections co")
     (auto simp: teardown_body_def skip_def split: option.splits)

lemma fst_finish_Exception:
  "fst (finish co (es, Ends (Raise (Exception e))))
     = es @ [Log_critical ''Failed to gracefully exit:'' (Some e), Os_kill_SIGTERM]"
proof (cases "sigterm_handler co")
  case None
  then show ?thesis by (simp add: finish_def os_kill_SIGTERM_def)
next
  case (Some out)
  then show ?thesis
    by (cases out) (simp_all add: finish_def os_kill_SIGTERM_def exit_def)
qed

lemma snd_finish_Exception_default:
  "sigterm_handler co = None \<Longrightarrow> snd (finish co (es, Ends (Raise (Exception e)))) = Killed SIGTERM"
  by (simp add: finish_def os_kill_SIGTERM_def)

lemma finish_Return: "finish co (es, Ends (Return u)) = (es, Ends (Raise (SystemExit 1)))"
  by (simp add: finish_def exit_def)

lemma finish_other:
  "finish co (es, Ends (Raise (SystemExit c))) = (es, Ends (Raise (SystemExit c)))"
  "finish co (es, Ends (Raise CancelledError)) = (es, Ends (Raise CancelledError))"
  "finish co (es, Killed s) = (es, Killed s)"
  by (simp_all add: finish_def)

lemma exit_handler_None_split:
  "exit_handler env co None
     = (fst (teardown_body env co) @ fst (finish co ([], snd (teardown_body env co))),
        snd (finish co ([], snd (teardown_body env co))))"
  using finish_append [of co "fst (teardown_body env co)" "([], snd (teardown_body env co))"]
  by (simp add: exit_handler_None)

lemma exit_handler_None_closes: "Close_connections \<in> set (fst (exit_handler env co None))"
  by (simp add: exit_handler_None_split fst_teardown_body)




subsection \<open>Exit status\<close>

text \<open>
  \<open>shutdown\<close> keeps no record of earlier requests: a second call on a running loop
  creates a second teardown task.
\<close>

lemma shutdown_repeated:
  assumes "is_running w"
  shows "shutdown (snd (shutdown w p)) q
           = (Return (), w\<lparr>tasks := tasks w @ [ExitHandlerTask p, ExitHandlerTask q]\<rparr>)"
  using assms by (simp add: shutdown_def create_task_def)

lemma teardown_body_returns:
  assumes "no_step_raises env co p"
  shows "snd (teardown_body env co) = Ends (Return ())"
  using assms
  by (auto simp: no_step_raises_def snd_teardown_body split: option.splits)

lemma exit_handler_None_returns:
  assumes "no_step_raises env co p"
  shows "snd (exit_handler env co None) = Ends (Raise (SystemExit 1))"
  by (simp add: exit_handler_None_split teardown_body_returns [OF assms] finish_Return)

lemma exit_handler_no_step_raises:
  assumes "no_step_raises env co p"
  shows "snd (exit_handler env co p) = Ends (Raise (SystemExit 1))"
proof (cases p)
  case None
  then show ?thesis using exit_handler_None_returns [OF assms] by simp
next
  case (Some a)
  show ?thesis
  proof (cases "awaited_within co a 10")
    case Done
    then show ?thesis
      using Some exit_handler_None_returns [OF assms] by (simp add: exit_handler_done)
  next
    case Too_slow
    then show ?thesis
      using Some exit_handler_None_returns [OF assms] by (simp add: exit_handler_timeout)
  next
    case (Fails e)
    then have "e = Exception TimeoutError"
      using assms Some by (simp add: no_step_raises_def)
    then show ?thesis
      using Fails Some exit_handler_None_returns [OF assms]
      by (simp add: exit_handler_inner_timeout)
  qed
qed

text \<open>
  C6, as the code has it. \<open>shutdown\<close> on a loop that is not running raises
  \<open>SystemExit(1)\<close> at once and creates no task; on a running loop it returns to its
  caller, having only handed the teardown coroutine to the loop. The teardown ends in
  \<open>exit(1)\<close> on every path on which no step raises, a wait that times out being caught
  and logged.
\<close>

theorem shutdown_exit_status:
  "(\<not> is_running w \<longrightarrow> shutdown w p = (Raise (SystemExit 1), w))
   \<and> (is_running w \<longrightarrow> shutdown w p = (Return (), w\<lparr>tasks := tasks w @ [ExitHandlerTask p]\<rparr>))
   \<and> (no_step_raises env co p \<longrightarrow> snd (exit_handler env co p) = Ends (Raise (SystemExit 1)))"
  by (simp add: shutdown_def create_task_def exit_handler_no_step_raises)

theorem shutdown_exit_status_witness:
  "shutdown stopped_loop (Some (SendMessage 42 ''bye'')) = (Raise (SystemExit 1), stopped_loop)
   \<and> shutdown running_loop (Some (SendMessage 42 ''bye''))
       = (Return (), running_loop\<lparr>tasks := [ExitHandlerTask (Some (SendMessage 42 ''bye''))]\<rparr>)
   \<and> no_step_raises with_bot slow_collaborators (Some (SendMessage 42 ''bye''))
   \<and> snd (exit_handler with_bot slow_collaborators (Some (SendMessage 42 ''bye'')))
       = Ends (Raise (SystemExit 1))"
proof -
  have a: "\<not> is_running stopped_loop" "is_running running_loop" "tasks running_loop = []"
    by (simp_all add: stopped_loop_def running_loop_def)
  have b: "no_step_raises with_bot slow_collaborators (Some (SendMessage 42 ''bye''))"
    by (simp add: no_step_raises_def with_bot_def slow_collaborators_def never_in_time_def)
  show ?thesis
    using a b
      shutdown_exit_status [of stopped_loop "Some (SendMessage 42 ''bye'')"]
      shutdown_exit_status [of running_loop "Some (SendMessage 42 ''bye'')" with_bot slow_collaborators]
    by simp
qed

text \<open>
  Two teardowns that do not end in \<open>exit(1)\<close>. When the disconnect raises an
  \<open>Exception\<close>, the handler sends \<open>SIGTERM\<close>, and with the default disposition the
  process is terminated by the signal before \<open>exit(1)\<close> is reached. When the disconnect
  raises \<open>CancelledError\<close>, no \<open>except\<close> clause catches it and it leaves the coroutine.
\<close>

theorem teardown_not_exit_1_counterexample:
  "sigterm_handler prompt_collaborators = None
   \<and> exit_handler failing_bot prompt_collaborators None
       = ([Bot_disconnect, Close_connections,
           Log_critical ''Failed to gracefully exit:'' (Some (OtherError ''network'')),
           Os_kill_SIGTERM],
          Killed SIGTERM)
   \<and> exit_handler cancelled_bot prompt_collaborators None
       = ([Bot_disconnect, Close_connections], Ends (Raise CancelledError))"
  by (simp add: prompt_collaborators_def failing_bot_def cancelled_bot_def exit_handler_def
        os_kill_SIGTERM_def skip_def)

subsection \<open>The prerequisite at a timeout\<close>

lemma finish_no_cancel: "Cancel_awaitable q \<notin> set (fst (finish co ([], out)))"
proof (cases out)
  case (Ends r)
  show ?thesis
  proof (cases r)
    case (Return u)
    then show ?thesis using Ends by (simp add: finish_Return)
  next
    case (Raise b)
    then show ?thesis
      using Ends by (cases b) (simp_all add: fst_finish_Exception finish_other)
  qed
next
  case (Killed s)
  then show ?thesis by (simp add: finish_other)
qed

lemma exit_handler_None_no_cancel: "Cancel_awaitable q \<notin> set (fst (exit_handler env co None))"
  using finish_no_cancel [of q co "snd (teardown_body env co)"]
  by (simp add: exit_handler_None_split fst_teardown_body)

text \<open>
  C9, as the code has it: the prerequisite is awaited through \<open>asyncio.wait_for\<close>, not
  shielded, so a timeout cancels it: the run records the cancellation right after the
  wait, logs the timeout as critical and goes on to close the storage. A prerequisite
  that completes within the timeout is not cancelled.
\<close>

theorem prerequisite_timeout_cancels:
  "(awaited_within co p 10 = Too_slow \<longrightarrow>
      (\<exists>rest. fst (exit_handler env co (Some p))
         = [Wait_for p 10, Cancel_awaitable p,
            Log_critical ''Failed to gracefully exit: prerequisite timed out'' None] @ rest)
      \<and> Close_connections \<in> set (fst (exit_handler env co (Some p))))
   \<and> (awaited_within co p 10 = Done \<longrightarrow>
        Cancel_awaitable p \<notin> set (fst (exit_handler env co (Some p))))"
proof (intro conjI impI)
  assume "awaited_within co p 10 = Too_slow"
  then show "\<exists>rest. fst (exit_handler env co (Some p))
         = [Wait_for p 10, Cancel_awaitable p,
            Log_critical ''Failed to gracefully exit: prerequisite timed out'' None] @ rest"
    by (simp add: exit_handler_timeout)
next
  assume "awaited_within co p 10 = Too_slow"
  then show "Close_connections \<in> set (fst (exit_handler env co (Some p)))"
    using exit_handler_None_closes [of env co] by (simp add: exit_handler_timeout)
next
  assume "awaited_within co p 10 = Done"
  then show "Cancel_awaitable p \<notin> set (fst (exit_handler env co (Some p)))"
    using exit_handler_None_no_cancel [of p env co] by (simp add: exit_handler_done)
qed

theorem prerequisite_timeout_cancels_witness:
  "awaited_within slow_collaborators (SendMessage 42 ''bye'') 10 = Too_slow
   \<and> Cancel_awaitable (SendMessage 42 ''bye'')
        \<in> set (fst (exit_handler no_bot slow_collaborators (Some (SendMessage 42 ''bye''))))
   \<and> Close_connections
        \<in> set (fst (exit_handler no_bot slow_collaborators (Some (SendMessage 42 ''bye''))))
   \<and> awaited_within prompt_collaborators (SendMessage 42 ''bye'') 10 = Done
   \<and> Cancel_awaitable (SendMessage 42 ''bye'')
        \<notin> set (fst (exit_handler no_bot prompt_collaborators (Some (SendMessage 42 ''bye''))))"
proof -
  have a: "awaited_within slow_collaborators (SendMessage 42 ''bye'') 10 = Too_slow"
    by (simp add: slow_collaborators_def never_in_time_def)
  have b: "awaited_within prompt_collaborators (SendMessage 42 ''bye'') 10 = Done"
    by (simp add: prompt_collaborators_def always_in_time_def)
  show ?thesis
    using a b
      prerequisite_timeout_cancels [of slow_collaborators "SendMessage 42 ''bye''" no_bot]
      prerequisite_timeout_cancels [of prompt_collaborators "SendMessage 42 ''bye''" no_bot]
    by auto
qed

text \<open>
  A prerequisite that does not finish within the timeout: it is cancelled, it does not
  go on in the background.
\<close>

theorem prerequisite_cancelled_counterexample:
  "awaited_within slow_collaborators (SendMessage 42 ''bye'') 10 = Too_slow
   \<and> exit_handler no_bot slow_collaborators (Some (SendMessage 42 ''bye''))
       = ([Wait_for (SendMessage 42 ''bye'') 10, Cancel_awaitable (SendMessage 42 ''bye''),
           Log_critical ''Failed to gracefully exit: prerequisite timed out'' None,
           Close_connections],
          Ends (Raise (SystemExit 1)))"
  by (simp add: slow_collaborators_def no_bot_def never_in_time_def exit_handler_def
        asyncio_wait_for_def skip_def exit_def)

subsection \<open>An absent bot client\<close>

text \<open>
  C10. With \<open>env.bot = None\<close>: a failure signal that brings the counter to a positive
  multiple of 5 makes the filter raise \<open>AttributeError\<close> (the counter keeps the
  increment, nothing else changes), whereas \<open>_exit_bot\<close> calls \<open>shutdown\<close> with no
  prerequisite, which on a running loop creates the teardown task without prerequisite.
\<close>

theorem absent_bot_asymmetry:
  fixes r :: "'a log_record_scheme"
  assumes "bot env = None"
  shows "(formatted r = Return msg \<and> str_in SKIPPED msg
            \<and> 0 < count self + 1 \<and> (count self + 1) mod 5 = 0 \<longrightarrow>
          APSCFilter_filter env (self, w) r
            = (Raise (Exception AttributeError), (self\<lparr>count := count self + 1\<rparr>, w)))
       \<and> Watchdog_exit_bot env w d = shutdown (critical w (exit_bot_msg d)) None
       \<and> (is_running w \<longrightarrow>
            Watchdog_exit_bot env w d
              = (Return (), w\<lparr>tasks := tasks w @ [ExitHandlerTask None],
                              logged := logged w @ [exit_bot_msg d]\<rparr>))"
  using assms
  by (simp add: APSCFilter_filter_def bot_send_message_def Watchdog_exit_bot_def exit_bot_coro_def
        shutdown_def critical_def create_task_def)

theorem absent_bot_asymmetry_witness:
  "bot no_bot = None
   \<and> APSCFilter_filter no_bot (\<lparr>count = 4, watchdog = \<lparr>watchdog_handle = 0\<rparr>\<rparr>, running_loop)
        \<lparr>levelno = 30, formatted = Return ''skipped: maximum number of running instances reached''\<rparr>
       = (Raise (Exception AttributeError),
          (\<lparr>count = 5, watchdog = \<lparr>watchdog_handle = 0\<rparr>\<rparr>, running_loop))
   \<and> Watchdog_exit_bot no_bot running_loop 300
       = (Return (),
          running_loop\<lparr>tasks := [ExitHandlerTask None],
                       logged := [''Never heard from the bot for 300 seconds. Exiting...'']\<rparr>)"
proof -
  let ?m = "''skipped: maximum number of running instances reached''"
  let ?r = "\<lparr>levelno = 30, formatted = Return ?m\<rparr>"
  let ?self = "\<lparr>count = 4, watchdog = \<lparr>watchdog_handle = 0\<rparr>\<rparr>"
  have a: "bot no_bot = None" by (simp add: no_bot_def)
  have b: "str_in SKIPPED ?m"
    by (simp add: SKIPPED_def)
  have c: "formatted ?r = Return ?m" "0 < count ?self + 1" "(count ?self + 1) mod 5 = 0"
    by simp_all
  have r: "is_running running_loop"
    by (simp add: running_loop_def)
  have d: "exit_bot_msg 300 = ''Never heard from the bot for 300 seconds. Exiting...''"
    by code_simp
  note T = absent_bot_asymmetry [OF a, of ?r ?m ?self running_loop 300]
  have h: "formatted ?r = Return ?m \<and> str_in SKIPPED ?m
            \<and> 0 < count ?self + 1 \<and> (count ?self + 1) mod 5 = 0"
    by (intro conjI) (rule c b)+
  have "APSCFilter_filter no_bot (?self, running_loop) ?r
          = (Raise (Exception AttributeError), (?self\<lparr>count := count ?self + 1\<rparr>, running_loop))"
    by (rule mp [OF conjunct1 [OF T] h])
  moreover have "Watchdog_exit_bot no_bot running_loop 300
              = (Return (), running_loop\<lparr>tasks := tasks running_loop @ [ExitHandlerTask None],
                              logged := logged running_loop @ [exit_bot_msg 300]\<rparr>)"
    by (rule mp [OF conjunct2 [OF conjunct2 [OF T]] r])
  ultimately show ?thesis
    using a d by (simp add: running_loop_def)
qed

subsection \<open>Escalation\<close>

lemma failure_step:
  fixes r :: "'a log_record_scheme"
  assumes "bot env = Some b" and "is_running w" and "formatted r = Return msg"
    and "str_in SKIPPED msg" and "0 \<le> count self"
  shows "\<exists>w'. APSCFilter_filter env (self, w) r = (Return True, (self\<lparr>count := count self + 1\<rparr>, w'))
            \<and> is_running w' \<and> tasks w' = tasks w @ escalation_tasks env (count self + 1) msg"
  using assms
  by (auto simp: APSCFilter_filter_def bot_send_message_def shutdown_def create_task_def
        critical_def escalation_tasks_def Let_def)

lemma failure_signalE:
  assumes "failure_signal r"
  obtains msg where "formatted r = Return msg" and "str_in SKIPPED msg"
  using assms by (auto simp: failure_signal_def split: outcome.splits)

lemma failure_step_signal:
  fixes r :: "'a log_record_scheme"
  assumes "bot env = Some b" and "is_running w" and "failure_signal r" and "0 \<le> count self"
  shows "\<exists>w' msg. APSCFilter_filter env (self, w) r = (Return True, (self\<lparr>count := count self + 1\<rparr>, w'))
            \<and> is_running w' \<and> tasks w' = tasks w @ escalation_tasks env (count self + 1) msg
            \<and> formatted r = Return msg"
proof -
  from assms(3) obtain msg where m: "formatted r = Return msg" "str_in SKIPPED msg"
    by (rule failure_signalE)
  from failure_step [OF assms(1,2) m assms(4)] m(1) show ?thesis
    by (elim exE conjE) (intro exI conjI)
qed

lemma feed_Cons_Return:
  "APSCFilter_filter env st r = (Return v, st') \<Longrightarrow>
   feed env st (r # rs) = (Return v # fst (feed env st' rs), snd (feed env st' rs))"
  by (simp add: split_beta)

lemma feed_failures_append:
  fixes rs :: "'a log_record_scheme list"
  assumes "bot env = Some b" and "is_running w" and "0 \<le> count self"
    and "\<forall>x\<in>set rs. failure_signal x"
  shows "feed env (self, w) (rs @ rs')
           = (replicate (length rs) (Return True) @ fst (feed env (snd (feed env (self, w) rs)) rs'),
              snd (feed env (snd (feed env (self, w) rs)) rs'))"
  using assms
proof (induction rs arbitrary: self w)
  case Nil
  then show ?case by simp
next
  case (Cons x xs)
  have fx: "failure_signal x" and fxs: "\<forall>x\<in>set xs. failure_signal x"
    using Cons.prems(4) by simp_all
  let ?self1 = "self\<lparr>count := count self + 1\<rparr>"
  obtain w1 where s: "APSCFilter_filter env (self, w) x = (Return True, (?self1, w1))"
    and r: "is_running w1"
    using failure_step_signal [OF Cons.prems(1,2) fx Cons.prems(3)] by (elim exE conjE)
  have c: "0 \<le> count ?self1"
    using Cons.prems(3) by simp
  note ih = Cons.IH [OF Cons.prems(1) r c fxs]
  have 1: "feed env (self, w) ((x # xs) @ rs')
             = (Return True # fst (feed env (?self1, w1) (xs @ rs')), snd (feed env (?self1, w1) (xs @ rs')))"
    using feed_Cons_Return [OF s, of "xs @ rs'"] by simp
  have 2: "feed env (self, w) (x # xs)
             = (Return True # fst (feed env (?self1, w1) xs), snd (feed env (?self1, w1) xs))"
    by (rule feed_Cons_Return [OF s])
  show ?case
    unfolding 1 2 ih by simp
qed

lemma threshold_split:
  fixes c :: int and n :: nat
  shows "(\<exists>k. c < k \<and> k \<le> c + int (Suc n) \<and> 15 \<le> k \<and> k mod 5 = 0)
          \<longleftrightarrow> (15 \<le> c + 1 \<and> (c + 1) mod 5 = 0)
              \<or> (\<exists>k. c + 1 < k \<and> k \<le> c + 1 + int n \<and> 15 \<le> k \<and> k mod 5 = 0)"
    (is "?L \<longleftrightarrow> ?A \<or> ?B")
proof
  assume ?L
  then obtain k where k: "c < k" "k \<le> c + int (Suc n)" "15 \<le> k" "k mod 5 = 0"
    by (elim exE conjE)
  show "?A \<or> ?B"
  proof (cases "k = c + 1")
    case True
    with k(3,4) show ?thesis by simp
  next
    case False
    with k have "c + 1 < k \<and> k \<le> c + 1 + int n \<and> 15 \<le> k \<and> k mod 5 = 0"
      by simp
    then show ?thesis by (intro disjI2 exI)
  qed
next
  assume "?A \<or> ?B"
  then show ?L
  proof
    assume ?A
    then have "c < c + 1 \<and> c + 1 \<le> c + int (Suc n) \<and> 15 \<le> c + 1 \<and> (c + 1) mod 5 = 0"
      by simp
    then show ?L by (rule exI)
  next
    assume ?B
    then obtain k where "c + 1 < k" "k \<le> c + 1 + int n" "15 \<le> k" "k mod 5 = 0"
      by (elim exE conjE)
    then have "c < k \<and> k \<le> c + int (Suc n) \<and> 15 \<le> k \<and> k mod 5 = 0"
      by simp
    then show ?L by (rule exI)
  qed
qed

lemma threshold_reached:
  fixes n :: nat
  shows "((\<exists>k. 0 < k \<and> k \<le> 0 + int n \<and> 15 \<le> k \<and> k mod 5 = 0)
           \<or> (15 \<le> int n + 1 \<and> (int n + 1) mod 5 = 0)) \<longleftrightarrow> 15 \<le> int n + 1"
    (is "?A \<or> ?B \<longleftrightarrow> ?R")
proof
  assume "?A \<or> ?B"
  then show ?R
  proof
    assume ?A
    then obtain k where "0 < k" "k \<le> 0 + int n" "15 \<le> k" "k mod 5 = 0"
      by (elim exE conjE)
    then show ?R by simp
  next
    assume ?B
    then show ?R by simp
  qed
next
  assume R: ?R
  show "?A \<or> ?B"
  proof (cases "15 \<le> int n")
    case True
    then have "(0::int) < 15 \<and> 15 \<le> 0 + int n \<and> (15::int) \<le> 15 \<and> (15::int) mod 5 = 0"
      by simp
    then have ?A by (rule exI)
    then show ?thesis by (rule disjI1)
  next
    case False
    with R have "int n + 1 = 15" by simp
    then have ?B by simp
    then show ?thesis by (rule disjI2)
  qed
qed

lemma escalation_teardown:
  "(\<exists>t\<in>set (escalation_tasks env n msg). is_teardown t) \<longleftrightarrow> 15 \<le> n \<and> n mod 5 = 0"
  by (simp add: escalation_tasks_def)

lemma escalation_notification:
  "(\<exists>t\<in>set (escalation_tasks env n msg). is_notification t) \<longleftrightarrow> n mod 5 = 0"
  by (simp add: escalation_tasks_def)

lemma new_tasks_append: "tasks w' = tasks w @ ts \<Longrightarrow> new_tasks w w' = ts"
  by (simp add: new_tasks_def)

lemma feed_failures:
  fixes rs :: "'a log_record_scheme list"
  assumes "bot env = Some b" and "is_running w" and "0 \<le> count self"
    and "\<forall>x\<in>set rs. failure_signal x"
  shows "count (fst (snd (feed env (self, w) rs))) = count self + int (length rs)
       \<and> is_running (snd (snd (feed env (self, w) rs)))
       \<and> (\<exists>ts. tasks (snd (snd (feed env (self, w) rs))) = tasks w @ ts
            \<and> ((\<exists>t\<in>set ts. is_teardown t) \<longleftrightarrow>
            (\<exists>k. count self < k \<and> k \<le> count self + int (length rs) \<and> 15 \<le> k \<and> k mod 5 = 0)))"
  using assms
proof (induction rs arbitrary: self w)
  case Nil
  have "\<not> (\<exists>k. count self < k \<and> k \<le> count self + int (length ([] :: 'a log_record_scheme list)) \<and> 15 \<le> k \<and> k mod 5 = 0)"
    by simp
  then have "tasks w = tasks w @ [] \<and> ((\<exists>t\<in>set ([] :: task list). is_teardown t) \<longleftrightarrow>
            (\<exists>k. count self < k \<and> k \<le> count self + int (length ([] :: 'a log_record_scheme list)) \<and> 15 \<le> k \<and> k mod 5 = 0))"
    by simp
  then have "\<exists>ts. tasks w = tasks w @ ts \<and> ((\<exists>t\<in>set ts. is_teardown t) \<longleftrightarrow>
            (\<exists>k. count self < k \<and> k \<le> count self + int (length ([] :: 'a log_record_scheme list)) \<and> 15 \<le> k \<and> k mod 5 = 0))"
    by (rule exI)
  then show ?case using Nil.prems(2) by simp
next
  case (Cons x xs)
  have fx: "failure_signal x" and fxs: "\<forall>x\<in>set xs. failure_signal x"
    using Cons.prems(4) by simp_all
  let ?self1 = "self\<lparr>count := count self + 1\<rparr>"
  obtain w1 msg where s: "APSCFilter_filter env (self, w) x = (Return True, (?self1, w1))"
    and r: "is_running w1"
    and t: "tasks w1 = tasks w @ escalation_tasks env (count self + 1) msg"
    using failure_step_signal [OF Cons.prems(1,2) fx Cons.prems(3)] by (elim exE conjE)
  let ?S = "snd (feed env (?self1, w1) xs)"
  have c1: "0 \<le> count ?self1"
    using Cons.prems(3) by simp
  note ih = Cons.IH [OF Cons.prems(1) r c1 fxs]
  have c: "count (fst ?S) = count ?self1 + int (length xs)"
    using ih by (rule conjunct1)
  have r': "is_running (snd ?S)"
    using ih by (rule conjunct1 [OF conjunct2])
  have "\<exists>ts. tasks (snd ?S) = tasks w1 @ ts
            \<and> ((\<exists>t\<in>set ts. is_teardown t) \<longleftrightarrow>
            (\<exists>k. count ?self1 < k \<and> k \<le> count ?self1 + int (length xs) \<and> 15 \<le> k \<and> k mod 5 = 0))"
    using ih by (rule conjunct2 [OF conjunct2])
  then obtain ts where t': "tasks (snd ?S) = tasks w1 @ ts"
    and td: "(\<exists>t\<in>set ts. is_teardown t) \<longleftrightarrow>
            (\<exists>k. count ?self1 < k \<and> k \<le> count ?self1 + int (length xs) \<and> 15 \<le> k \<and> k mod 5 = 0)"
    by (elim exE conjE)
  have td': "(\<exists>t\<in>set ts. is_teardown t) \<longleftrightarrow>
            (\<exists>k. count self + 1 < k \<and> k \<le> count self + 1 + int (length xs) \<and> 15 \<le> k \<and> k mod 5 = 0)"
    using td by simp
  have S: "snd (feed env (self, w) (x # xs)) = ?S"
    using feed_Cons_Return [OF s, of xs] by simp
  have "(\<exists>t\<in>set (escalation_tasks env (count self + 1) msg @ ts). is_teardown t) \<longleftrightarrow>
       (\<exists>k. count self < k \<and> k \<le> count self + int (Suc (length xs)) \<and> 15 \<le> k \<and> k mod 5 = 0)"
    unfolding threshold_split set_append bex_Un escalation_teardown td' ..
  then have a: "(\<exists>t\<in>set (escalation_tasks env (count self + 1) msg @ ts). is_teardown t) \<longleftrightarrow>
       (\<exists>k. count self < k \<and> k \<le> count self + int (length (x # xs)) \<and> 15 \<le> k \<and> k mod 5 = 0)"
    by simp
  have b: "tasks (snd ?S) = tasks w @ (escalation_tasks env (count self + 1) msg @ ts)"
    unfolding t' t by simp
  have d: "count (fst ?S) = count self + int (length (x # xs))"
    using c by simp
  have "\<exists>ts. tasks (snd ?S) = tasks w @ ts \<and> ((\<exists>t\<in>set ts. is_teardown t) \<longleftrightarrow>
       (\<exists>k. count self < k \<and> k \<le> count self + int (length (x # xs)) \<and> 15 \<le> k \<and> k mod 5 = 0))"
    using b a by (intro exI conjI)
  then show ?case
    unfolding S using d r' by (intro conjI)
qed

lemma count_step:
  fixes x :: "'a log_record_scheme"
  shows "(failure_signal x \<and> count (fst (snd (APSCFilter_filter env (self, w) x))) = count self + 1)
       \<or> (heartbeat_signal x \<and> count (fst (snd (APSCFilter_filter env (self, w) x))) = 0)
       \<or> (\<not> failure_signal x \<and> \<not> heartbeat_signal x
            \<and> count (fst (snd (APSCFilter_filter env (self, w) x))) = count self)"
proof (cases "formatted x")
  case (Raise e)
  then show ?thesis
    by (simp add: APSCFilter_filter_def failure_signal_def heartbeat_signal_def)
next
  case (Return msg)
  show ?thesis
  proof (cases "str_in SKIPPED msg")
    case True
    then show ?thesis
      using Return
      by (simp add: APSCFilter_filter_def failure_signal_def heartbeat_signal_def Let_def
            shutdown_def bot_send_message_def split: option.splits)
  next
    case False
    then show ?thesis
      using Return
      by (simp add: APSCFilter_filter_def failure_signal_def heartbeat_signal_def split_beta)
  qed
qed

text \<open>
  The escalation policy where the bot client exists and the loop is running. Let
  \<open>N = length rs + 1\<close> failure signals arrive at a filter whose counter is 0, \<open>r\<close> being
  the last of them. Then every record passes; the counter is \<open>N\<close> after the \<open>N\<close>-th
  signal; the \<open>N\<close>-th signal hands a notification to the loop iff \<open>N\<close> is a multiple of
  5; it creates the teardown task iff \<open>N \<ge> 15\<close> and \<open>N\<close> is a multiple of 5; hence a
  shutdown has been initiated by the \<open>N\<close>-th signal iff \<open>N \<ge> 15\<close>. For every
  environment, state and record, a counter that is not negative stays so, and a step
  adds one to it on a failure signal, sets it to 0 on a heartbeat, and leaves it alone
  otherwise.
\<close>

theorem escalation_by_count:
  fixes rs :: "'a log_record_scheme list" and r :: "'a log_record_scheme"
  assumes "bot env \<noteq> None" and "is_running w" and "count self = 0"
    and "\<forall>x\<in>set (rs @ [r]). failure_signal x"
  shows "fst (feed env (self, w) (rs @ [r])) = replicate (length rs + 1) (Return True)
       \<and> state_after env (self, w) (rs @ [r])
           = snd (APSCFilter_filter env (state_after env (self, w) rs) r)
       \<and> count (fst (state_after env (self, w) (rs @ [r]))) = int (length rs) + 1
       \<and> ((\<exists>t\<in>set (new_tasks (snd (state_after env (self, w) rs))
                      (snd (state_after env (self, w) (rs @ [r])))). is_notification t)
            \<longleftrightarrow> (int (length rs) + 1) mod 5 = 0)
       \<and> ((\<exists>t\<in>set (new_tasks (snd (state_after env (self, w) rs))
                      (snd (state_after env (self, w) (rs @ [r])))). is_teardown t)
            \<longleftrightarrow> 15 \<le> int (length rs) + 1 \<and> (int (length rs) + 1) mod 5 = 0)
       \<and> ((\<exists>t\<in>set (new_tasks w (snd (state_after env (self, w) (rs @ [r])))). is_teardown t)
            \<longleftrightarrow> 15 \<le> int (length rs) + 1)
       \<and> (\<forall>env' self' w' (x :: 'a log_record_scheme).
             0 \<le> count self' \<longrightarrow>
             0 \<le> count (fst (snd (APSCFilter_filter env' (self', w') x)))
             \<and> ((failure_signal x
                    \<and> count (fst (snd (APSCFilter_filter env' (self', w') x))) = count self' + 1)
                 \<or> (heartbeat_signal x
                    \<and> count (fst (snd (APSCFilter_filter env' (self', w') x))) = 0)
                 \<or> (\<not> failure_signal x \<and> \<not> heartbeat_signal x
                    \<and> count (fst (snd (APSCFilter_filter env' (self', w') x))) = count self')))"
proof -
  obtain b where b: "bot env = Some b"
    using assms(1) by (cases "bot env") simp_all
  have frs: "\<forall>x\<in>set rs. failure_signal x" and fr: "failure_signal r"
    using assms(4) by simp_all
  have c0: "0 \<le> count self"
    using assms(3) by simp
  let ?S = "snd (feed env (self, w) rs)"
  let ?n = "int (length rs)"
  note ff = feed_failures [OF b assms(2) c0 frs]
  have cS: "count (fst ?S) = ?n"
    using conjunct1 [OF ff] assms(3) by simp
  have rS: "is_running (snd ?S)"
    by (rule conjunct1 [OF conjunct2 [OF ff]])
  obtain ts where tS: "tasks (snd ?S) = tasks w @ ts"
    and td: "(\<exists>t\<in>set ts. is_teardown t) \<longleftrightarrow>
            (\<exists>k. count self < k \<and> k \<le> count self + ?n \<and> 15 \<le> k \<and> k mod 5 = 0)"
    using conjunct2 [OF conjunct2 [OF ff]] by (elim exE conjE)
  have td0: "(\<exists>t\<in>set ts. is_teardown t) \<longleftrightarrow>
            (\<exists>k. 0 < k \<and> k \<le> 0 + ?n \<and> 15 \<le> k \<and> k mod 5 = 0)"
    using td unfolding assms(3) .
  have cS0: "0 \<le> count (fst ?S)"
    using cS by simp
  obtain w2 msg where
    s: "APSCFilter_filter env (fst ?S, snd ?S) r
          = (Return True, ((fst ?S)\<lparr>count := count (fst ?S) + 1\<rparr>, w2))"
    and t2: "tasks w2 = tasks (snd ?S) @ escalation_tasks env (count (fst ?S) + 1) msg"
    using failure_step_signal [OF b rS fr cS0] by (elim exE conjE)
  have s': "APSCFilter_filter env ?S r = (Return True, ((fst ?S)\<lparr>count := ?n + 1\<rparr>, w2))"
    using s cS by simp
  have t2': "tasks w2 = tasks (snd ?S) @ escalation_tasks env (?n + 1) msg"
    using t2 cS by simp
  have f1: "feed env ?S [r] = ([Return True], ((fst ?S)\<lparr>count := ?n + 1\<rparr>, w2))"
    using feed_Cons_Return [OF s', of "[]"] by simp
  have fa: "feed env (self, w) (rs @ [r])
              = (replicate (length rs) (Return True) @ [Return True],
                 ((fst ?S)\<lparr>count := ?n + 1\<rparr>, w2))"
    using feed_failures_append [OF b assms(2) c0 frs, of "[r]"] unfolding f1 by simp
  have 1: "fst (feed env (self, w) (rs @ [r])) = replicate (length rs + 1) (Return True)"
    unfolding fa by (simp add: replicate_append_same)
  have sa: "state_after env (self, w) (rs @ [r]) = ((fst ?S)\<lparr>count := ?n + 1\<rparr>, w2)"
    unfolding state_after_def fa by simp
  have sb: "state_after env (self, w) rs = ?S"
    by (simp add: state_after_def)
  have 2: "state_after env (self, w) (rs @ [r])
           = snd (APSCFilter_filter env (state_after env (self, w) rs) r)"
    unfolding sa sb s' by simp
  have 3: "count (fst (state_after env (self, w) (rs @ [r]))) = ?n + 1"
    unfolding sa by simp
  have n1: "new_tasks (snd ?S) w2 = escalation_tasks env (?n + 1) msg"
    by (rule new_tasks_append [OF t2'])
  have n2: "new_tasks w w2 = ts @ escalation_tasks env (?n + 1) msg"
    by (rule new_tasks_append) (simp add: t2' tS)
  have 4: "(\<exists>t\<in>set (new_tasks (snd (state_after env (self, w) rs))
                      (snd (state_after env (self, w) (rs @ [r])))). is_notification t)
            \<longleftrightarrow> (?n + 1) mod 5 = 0"
    unfolding sa sb snd_conv n1 by (rule escalation_notification)
  have 5: "(\<exists>t\<in>set (new_tasks (snd (state_after env (self, w) rs))
                      (snd (state_after env (self, w) (rs @ [r])))). is_teardown t)
            \<longleftrightarrow> 15 \<le> ?n + 1 \<and> (?n + 1) mod 5 = 0"
    unfolding sa sb snd_conv n1 by (rule escalation_teardown)
  have 6: "(\<exists>t\<in>set (new_tasks w (snd (state_after env (self, w) (rs @ [r])))). is_teardown t)
            \<longleftrightarrow> 15 \<le> ?n + 1"
    unfolding sa snd_conv n2 set_append bex_Un td0 escalation_teardown
    by (rule threshold_reached)
  have 7: "0 \<le> count self' \<longrightarrow>
             0 \<le> count (fst (snd (APSCFilter_filter env' (self', w') x)))
             \<and> ((failure_signal x
                    \<and> count (fst (snd (APSCFilter_filter env' (self', w') x))) = count self' + 1)
                 \<or> (heartbeat_signal x
                    \<and> count (fst (snd (APSCFilter_filter env' (self', w') x))) = 0)
                 \<or> (\<not> failure_signal x \<and> \<not> heartbeat_signal x
                    \<and> count (fst (snd (APSCFilter_filter env' (self', w') x))) = count self'))"
    for env' self' w' and x :: "'a log_record_scheme"
    using count_step [of x env' self' w'] by auto
  show ?thesis
    using 1 2 3 4 5 6 7 by (intro conjI allI)
qed

theorem escalation_by_count_example:
  "bot with_bot = Some \<lparr>is_connected = True, disconnect = Return ()\<rparr>
   \<and> is_running running_loop
   \<and> failure_signal conflict_record
   \<and> fst (feed with_bot (\<lparr>count = 0, watchdog = \<lparr>watchdog_handle = 0\<rparr>\<rparr>, running_loop)
        (replicate 14 conflict_record @ [conflict_record])) = replicate 15 (Return True)
   \<and> count (fst (state_after with_bot (\<lparr>count = 0, watchdog = \<lparr>watchdog_handle = 0\<rparr>\<rparr>, running_loop)
        (replicate 14 conflict_record @ [conflict_record]))) = 15
   \<and> list_ex is_teardown
        (new_tasks running_loop
           (snd (state_after with_bot (\<lparr>count = 0, watchdog = \<lparr>watchdog_handle = 0\<rparr>\<rparr>, running_loop)
              (replicate 14 conflict_record @ [conflict_record]))))
   \<and> 0 \<le> count (fst (snd (APSCFilter_filter no_bot
            (\<lparr>count = 4, watchdog = \<lparr>watchdog_handle = 0\<rparr>\<rparr>, running_loop) conflict_record)))"
proof -
  let ?self = "\<lparr>count = 0, watchdog = \<lparr>watchdog_handle = 0\<rparr>\<rparr>"
  have a: "bot with_bot = Some \<lparr>is_connected = True, disconnect = Return ()\<rparr>"
    by (simp add: with_bot_def)
  then have a': "bot with_bot \<noteq> None" by simp
  have b: "is_running running_loop"
    by (simp add: running_loop_def)
  have c: "count ?self = 0" by simp
  have d: "failure_signal conflict_record"
    by code_simp
  then have e: "\<forall>x\<in>set (replicate 14 conflict_record @ [conflict_record]). failure_signal x"
    by simp
  note T = escalation_by_count [OF a' b c e]
  have t1: "fst (feed with_bot (?self, running_loop) (replicate 14 conflict_record @ [conflict_record]))
           = replicate (length (replicate 14 conflict_record) + 1) (Return True)"
    by (rule conjunct1 [OF T])
  have t3: "count (fst (state_after with_bot (?self, running_loop)
        (replicate 14 conflict_record @ [conflict_record]))) = int (length (replicate 14 conflict_record)) + 1"
    by (rule conjunct1 [OF conjunct2 [OF conjunct2 [OF T]]])
  have t6: "(\<exists>t\<in>set (new_tasks running_loop (snd (state_after with_bot (?self, running_loop)
              (replicate 14 conflict_record @ [conflict_record])))). is_teardown t)
            \<longleftrightarrow> 15 \<le> int (length (replicate 14 conflict_record)) + 1"
    by (rule conjunct1 [OF conjunct2 [OF conjunct2 [OF conjunct2 [OF conjunct2 [OF conjunct2 [OF T]]]]]])
  have f1: "fst (feed with_bot (?self, running_loop) (replicate 14 conflict_record @ [conflict_record]))
           = replicate 15 (Return True)"
    using t1 by simp
  have f3: "count (fst (state_after with_bot (?self, running_loop)
        (replicate 14 conflict_record @ [conflict_record]))) = 15"
    using t3 by simp
  have f6: "list_ex is_teardown (new_tasks running_loop (snd (state_after with_bot (?self, running_loop)
              (replicate 14 conflict_record @ [conflict_record]))))"
    using t6 by (simp add: list_ex_iff)
  note T7 = conjunct2 [OF conjunct2 [OF conjunct2 [OF conjunct2 [OF conjunct2 [OF conjunct2 [OF T]]]]]]
  have g: "0 \<le> count \<lparr>count = 4, watchdog = \<lparr>watchdog_handle = 0\<rparr>\<rparr>" by simp
  have f7: "0 \<le> count (fst (snd (APSCFilter_filter no_bot
            (\<lparr>count = 4, watchdog = \<lparr>watchdog_handle = 0\<rparr>\<rparr>, running_loop) conflict_record)))"
    by (rule conjunct1 [OF mp [OF spec [OF spec [OF spec [OF spec [OF T7]]]] g]])
  show ?thesis
    using a b d f1 f3 f6 f7 by (intro conjI)
qed

text \<open>
  C1. After \<open>N\<close> consecutive failure signals from counter 0 the counter is \<open>N\<close>, a
  notification is dispatched iff \<open>N\<close> is a positive multiple of 5, and a shutdown is
  initiated iff \<open>N \<ge> 15\<close>. The filter does not do so when there is no bot client: of
  fifteen failure signals that reach a new filter on a running loop, the fifth, tenth
  and fifteenth raise \<open>AttributeError\<close>; the counter reaches 15 and the loop is as the
  filter's creation left it, with no notification and no teardown task.
\<close>

theorem escalation_without_bot_raises:
  "failure_signal conflict_record
   \<and> is_running running_loop
   \<and> feed no_bot (APSCFilter_init running_loop) (replicate 15 conflict_record)
     = ([Return True, Return True, Return True, Return True, Raise (Exception AttributeError),
         Return True, Return True, Return True, Return True, Raise (Exception AttributeError),
         Return True, Return True, Return True, Return True, Raise (Exception AttributeError)],
        (\<lparr>count = 15, watchdog = \<lparr>watchdog_handle = 0\<rparr>\<rparr>, snd (APSCFilter_init running_loop)))
   \<and> tasks (snd (APSCFilter_init running_loop)) = []"
  by code_simp

subsection \<open>Watchdog cycles\<close>

lemma handles_ok_iff:
  "handles_ok (wd, w) \<longleftrightarrow>
     distinct (map handle_id (scheduled w))
     \<and> (\<forall>t\<in>set (scheduled w). handle_id t < next_handle w)
     \<and> (\<forall>t\<in>set (scheduled w). \<not> cancelled t \<longrightarrow> handle_id t = watchdog_handle wd)"
  by (simp add: handles_ok_def list_all_iff)

lemma handles_ok_init:
  assumes "scheduled w0 = []"
  shows "handles_ok (Watchdog_init w0 d)"
    and "pending (snd (Watchdog_init w0 d)) = [watchdog_handle (fst (Watchdog_init w0 d))]"
  using assms
  by (simp_all add: Watchdog_init_def call_later_def handles_ok_def pending_def)

lemma scheduled_fine:
  "scheduled (snd (Watchdog_fine wd w d))
     = map (\<lambda>t. if handle_id t = watchdog_handle wd then t\<lparr>cancelled := True\<rparr> else t) (scheduled w)
       @ [\<lparr>handle_id = next_handle w, delay = d, cancelled = False\<rparr>]"
  by (simp add: Watchdog_fine_eq call_later_def cancel_def)

lemma handle_id_mark:
  "map handle_id (map (\<lambda>t. if handle_id t = h then t\<lparr>cancelled := True\<rparr> else t) ts) = map handle_id ts"
  by (induction ts) auto

lemma handle_fine: "watchdog_handle (fst (Watchdog_fine wd w d)) = next_handle w"
  by (simp add: Watchdog_fine_eq)

lemma handle_ids_fine:
  "map handle_id (scheduled (snd (Watchdog_fine wd w d))) = map handle_id (scheduled w) @ [next_handle w]"
  unfolding scheduled_fine map_append handle_id_mark by simp

lemma handles_ok_fine:
  assumes "handles_ok (wd, w)"
  shows "handles_ok (Watchdog_fine wd w d)"
proof -
  have d: "distinct (map handle_id (scheduled w))"
    and b: "\<forall>t\<in>set (scheduled w). handle_id t < next_handle w"
    and c: "\<forall>t\<in>set (scheduled w). \<not> cancelled t \<longrightarrow> handle_id t = watchdog_handle wd"
    using assms by (simp_all add: handles_ok_iff)
  have "next_handle w \<notin> set (map handle_id (scheduled w))"
    using b by auto
  then have 1: "distinct (map handle_id (scheduled (snd (Watchdog_fine wd w d))))"
    using d unfolding handle_ids_fine by simp
  have 2: "\<forall>t\<in>set (scheduled (snd (Watchdog_fine wd w d))).
             handle_id t < next_handle (snd (Watchdog_fine wd w d))"
    using b by (auto simp: scheduled_fine fine_frame(4))
  have 3: "\<forall>t\<in>set (scheduled (snd (Watchdog_fine wd w d))).
             \<not> cancelled t \<longrightarrow> handle_id t = watchdog_handle (fst (Watchdog_fine wd w d))"
    using c by (auto simp: scheduled_fine handle_fine)
  show ?thesis
    using 1 2 3 handles_ok_iff [of "fst (Watchdog_fine wd w d)" "snd (Watchdog_fine wd w d)"]
    by simp
qed

lemma run_timer_Some:
  assumes "run_timer env w h = Some (out, w')"
  shows "\<exists>t. find (\<lambda>t. handle_id t = h) (scheduled w) = Some t \<and> \<not> cancelled t \<and> is_running w
            \<and> out = Return ()
            \<and> w' = w\<lparr>scheduled := filter (\<lambda>t. handle_id t \<noteq> h) (scheduled w),
                      tasks := tasks w @ [ExitHandlerTask (exit_bot_coro env (delay t))],
                      logged := logged w @ [exit_bot_msg (delay t)]\<rparr>"
  using assms
  by (auto simp: run_timer_def Watchdog_exit_bot_def shutdown_def critical_def create_task_def
           split: option.splits if_splits)

lemma find_handle:
  assumes "find (\<lambda>t. handle_id t = h) ts = Some t"
  shows "t \<in> set ts \<and> handle_id t = h"
  using assms by (induction ts) (auto split: if_splits)

lemma run_timer_scheduled:
  assumes "run_timer env w h = Some (out, w')"
  shows "scheduled w' = filter (\<lambda>t. handle_id t \<noteq> h) (scheduled w)"
    and "next_handle w' = next_handle w"
    and "h \<in> set (pending w)"
    and "is_running w"
proof -
  obtain t where f: "find (\<lambda>t. handle_id t = h) (scheduled w) = Some t" and nc: "\<not> cancelled t"
    and r: "is_running w"
    and w': "w' = w\<lparr>scheduled := filter (\<lambda>t. handle_id t \<noteq> h) (scheduled w),
                      tasks := tasks w @ [ExitHandlerTask (exit_bot_coro env (delay t))],
                      logged := logged w @ [exit_bot_msg (delay t)]\<rparr>"
    using run_timer_Some [OF assms] by (elim exE conjE)
  show "scheduled w' = filter (\<lambda>t. handle_id t \<noteq> h) (scheduled w)"
    and "next_handle w' = next_handle w"
    unfolding w' by simp_all
  have "t \<in> set (scheduled w) \<and> handle_id t = h"
    by (rule find_handle [OF f])
  then show "h \<in> set (pending w)"
    using nc by (auto simp: pending_def)
  show "is_running w" by (rule r)
qed

lemma pending_remove_list:
  "map handle_id (filter (\<lambda>t. \<not> cancelled t) (filter (\<lambda>t. handle_id t \<noteq> h) ts))
     = filter (\<lambda>x. x \<noteq> h) (map handle_id (filter (\<lambda>t. \<not> cancelled t) ts))"
  by (induction ts) auto

lemma pending_run_timer:
  assumes "run_timer env w h = Some (out, w')"
  shows "pending w' = filter (\<lambda>x. x \<noteq> h) (pending w)"
  unfolding pending_def run_timer_scheduled(1) [OF assms]
  by (rule pending_remove_list)

lemma handles_ok_run_timer:
  assumes "handles_ok (wd, w)" and "run_timer env w h = Some (out, w')"
  shows "handles_ok (wd, w')"
  using assms(1)
  unfolding handles_ok_iff run_timer_scheduled(1,2) [OF assms(2)]
  by (auto simp: distinct_map_filter)

lemma handles_ok_step:
  assumes "handles_ok st"
  shows "handles_ok (wd_step env st ev)"
proof (cases st)
  case (Pair wd w)
  show ?thesis
  proof (cases ev)
    case (Reset d)
    then show ?thesis
      using assms Pair by (simp add: handles_ok_fine)
  next
    case (Expire h)
    show ?thesis
    proof (cases "run_timer env w h")
      case None
      then show ?thesis using assms Pair Expire by simp
    next
      case (Some a)
      then obtain out w' where a: "run_timer env w h = Some (out, w')"
        by (cases a) simp
      then show ?thesis
        using assms Pair Expire handles_ok_run_timer [of wd w env h out w'] by simp
    qed
  qed
qed

lemma handles_ok_run:
  assumes "handles_ok st"
  shows "handles_ok (wd_run env st evs)"
  using assms unfolding wd_run_def
  by (induction evs arbitrary: st) (simp_all add: handles_ok_step)

lemma pending_at_most_one:
  assumes "handles_ok (wd, w)"
  shows "length (pending w) \<le> 1" and "set (pending w) \<subseteq> {watchdog_handle wd}"
proof -
  have d: "distinct (map handle_id (scheduled w))"
    and c: "\<forall>t\<in>set (scheduled w). \<not> cancelled t \<longrightarrow> handle_id t = watchdog_handle wd"
    using assms by (simp_all add: handles_ok_iff)
  show s: "set (pending w) \<subseteq> {watchdog_handle wd}"
    using c by (auto simp: pending_def)
  have "distinct (pending w)"
    unfolding pending_def using d by (rule distinct_map_filter)
  then have "length (pending w) = card (set (pending w))"
    by (simp add: distinct_card)
  also have "\<dots> \<le> card {watchdog_handle wd}"
    using s by (intro card_mono) simp_all
  finally show "length (pending w) \<le> 1" by simp
qed

lemma retired_step:
  assumes "retired w h"
  shows "retired (snd (wd_step env (wd, w) ev)) h"
proof (cases ev)
  case (Reset d)
  then show ?thesis
    using assms by (auto simp: retired_def pending_fine fine_frame(4))
next
  case (Expire k)
  show ?thesis
  proof (cases "run_timer env w k")
    case None
    then show ?thesis using assms Expire by simp
  next
    case (Some a)
    then obtain out w' where a: "run_timer env w k = Some (out, w')"
      by (cases a) simp
    then show ?thesis
      using assms Expire pending_run_timer [OF a] run_timer_scheduled(2) [OF a]
      by (simp add: retired_def)
  qed
qed

lemma retired_run:
  assumes "retired (snd st) h"
  shows "retired (snd (wd_run env st evs)) h"
  using assms unfolding wd_run_def
proof (induction evs arbitrary: st)
  case Nil
  then show ?case by simp
next
  case (Cons ev evs)
  have "retired (snd (wd_step env (fst st, snd st) ev)) h"
    by (rule retired_step [OF Cons.prems])
  then show ?case
    using Cons.IH [of "wd_step env st ev"] by simp
qed

lemma retired_never_runs:
  assumes "retired w h"
  shows "run_timer env w h = None"
proof (cases "run_timer env w h")
  case None
  then show ?thesis .
next
  case (Some a)
  then obtain out w' where "run_timer env w h = Some (out, w')"
    by (cases a) simp
  then have "h \<in> set (pending w)"
    by (rule run_timer_scheduled(3))
  then show ?thesis
    using assms by (simp add: retired_def)
qed

lemma filter_other_than_only:
  assumes "set xs \<subseteq> {a}"
  shows "filter (\<lambda>x. x \<noteq> a) xs = []"
  using assms by (induction xs) auto

text \<open>
  C7. Let the watchdog be created on a loop that holds no handle, and let any sequence
  of resets and expiries follow, ending in the watchdog \<open>wd\<close> and the loop \<open>w\<close>. Then
  at most one callback is pending, and it is the one whose handle the watchdog holds.
  A reset leaves exactly one pending callback, that of the fresh handle it keeps, and
  no handle issued before the reset can ever run again. An expiry runs the held handle:
  it returns, adds exactly one teardown task, whose prerequisite is the notification
  coroutine composed for the delay the handle was armed with when a bot client exists
  and is absent otherwise, leaves nothing pending, and the same handle never runs again.
\<close>

theorem watchdog_cycles:
  assumes "scheduled w0 = []" and "wd_run env (Watchdog_init w0 d0) evs = (wd, w)"
  shows "length (pending w) \<le> 1 \<and> set (pending w) \<subseteq> {watchdog_handle wd}
       \<and> (\<forall>d. pending (snd (Watchdog_fine wd w d)) = [watchdog_handle (fst (Watchdog_fine wd w d))]
              \<and> watchdog_handle (fst (Watchdog_fine wd w d)) = next_handle w
              \<and> (\<forall>h evs'. h < next_handle w \<longrightarrow>
                    run_timer env (snd (wd_run env (Watchdog_fine wd w d) evs')) h = None))
       \<and> (\<forall>h out w'. run_timer env w h = Some (out, w') \<longrightarrow>
              h = watchdog_handle wd \<and> out = Return ()
              \<and> (\<exists>t\<in>set (scheduled w). handle_id t = h
                     \<and> tasks w' = tasks w @ [ExitHandlerTask (exit_bot_coro env (delay t))])
              \<and> pending w' = []
              \<and> (\<forall>evs'. run_timer env (snd (wd_run env (wd, w') evs')) h = None))
       \<and> (\<forall>d. exit_bot_coro env d
              = (case bot env of
                   None \<Rightarrow> None
                 | Some b \<Rightarrow> Some (SendMessage (MANAGER env) (''WATCHDOG: '' @ exit_bot_msg d))))"
proof -
  have "handles_ok (wd_run env (Watchdog_init w0 d0) evs)"
    by (rule handles_ok_run [OF handles_ok_init(1) [OF assms(1)]])
  then have ok: "handles_ok (wd, w)"
    unfolding assms(2) .
  have 1: "length (pending w) \<le> 1" and 2: "set (pending w) \<subseteq> {watchdog_handle wd}"
    using pending_at_most_one [OF ok] by simp_all
  have 3: "pending (snd (Watchdog_fine wd w d)) = [watchdog_handle (fst (Watchdog_fine wd w d))]
              \<and> watchdog_handle (fst (Watchdog_fine wd w d)) = next_handle w
              \<and> (\<forall>h evs'. h < next_handle w \<longrightarrow>
                    run_timer env (snd (wd_run env (Watchdog_fine wd w d) evs')) h = None)" for d
  proof (intro conjI allI impI)
    show p: "pending (snd (Watchdog_fine wd w d)) = [watchdog_handle (fst (Watchdog_fine wd w d))]"
      unfolding pending_fine handle_fine filter_other_than_only [OF 2] by simp
    show "watchdog_handle (fst (Watchdog_fine wd w d)) = next_handle w"
      by (rule handle_fine)
    fix h evs'
    assume h: "h < next_handle w"
    have "retired (snd (Watchdog_fine wd w d)) h"
      unfolding retired_def p handle_fine fine_frame(4) using h by simp
    then have "retired (snd (wd_run env (Watchdog_fine wd w d) evs')) h"
      by (rule retired_run)
    then show "run_timer env (snd (wd_run env (Watchdog_fine wd w d) evs')) h = None"
      by (rule retired_never_runs)
  qed
  have 4: "run_timer env w h = Some (out, w') \<longrightarrow>
              h = watchdog_handle wd \<and> out = Return ()
              \<and> (\<exists>t\<in>set (scheduled w). handle_id t = h
                     \<and> tasks w' = tasks w @ [ExitHandlerTask (exit_bot_coro env (delay t))])
              \<and> pending w' = []
              \<and> (\<forall>evs'. run_timer env (snd (wd_run env (wd, w') evs')) h = None)" for h out w'
  proof
    assume rt: "run_timer env w h = Some (out, w')"
    obtain t where f: "find (\<lambda>t. handle_id t = h) (scheduled w) = Some t"
      and out: "out = Return ()"
      and w': "w' = w\<lparr>scheduled := filter (\<lambda>t. handle_id t \<noteq> h) (scheduled w),
                      tasks := tasks w @ [ExitHandlerTask (exit_bot_coro env (delay t))],
                      logged := logged w @ [exit_bot_msg (delay t)]\<rparr>"
      using run_timer_Some [OF rt] by (elim exE conjE)
    have t: "t \<in> set (scheduled w)" and th: "handle_id t = h"
      using find_handle [OF f] by simp_all
    have hp: "h \<in> set (pending w)"
      by (rule run_timer_scheduled(3) [OF rt])
    then have hw: "h = watchdog_handle wd"
      using 2 by auto
    have tk: "tasks w' = tasks w @ [ExitHandlerTask (exit_bot_coro env (delay t))]"
      unfolding w' by simp
    have pe: "pending w' = []"
      unfolding pending_run_timer [OF rt] hw by (rule filter_other_than_only [OF 2])
    have "h < next_handle w"
      using ok t th by (auto simp: handles_ok_iff)
    then have "retired w' h"
      unfolding retired_def pe run_timer_scheduled(2) [OF rt] by simp
    then have nv: "run_timer env (snd (wd_run env (wd, w') evs')) h = None" for evs'
      using retired_run [of "(wd, w')" h env evs'] by (simp add: retired_never_runs)
    have ex: "\<exists>t\<in>set (scheduled w). handle_id t = h
                     \<and> tasks w' = tasks w @ [ExitHandlerTask (exit_bot_coro env (delay t))]"
      using t th tk by (intro bexI [of _ t] conjI)
    show "h = watchdog_handle wd \<and> out = Return ()
              \<and> (\<exists>t\<in>set (scheduled w). handle_id t = h
                     \<and> tasks w' = tasks w @ [ExitHandlerTask (exit_bot_coro env (delay t))])
              \<and> pending w' = []
              \<and> (\<forall>evs'. run_timer env (snd (wd_run env (wd, w') evs')) h = None)"
      using hw out ex pe nv by (intro conjI allI)
  qed
  have 5: "exit_bot_coro env d
              = (case bot env of
                   None \<Rightarrow> None
                 | Some b \<Rightarrow> Some (SendMessage (MANAGER env) (''WATCHDOG: '' @ exit_bot_msg d)))" for d
    by (simp add: exit_bot_coro_def)
  have a3: "\<forall>d. pending (snd (Watchdog_fine wd w d)) = [watchdog_handle (fst (Watchdog_fine wd w d))]
              \<and> watchdog_handle (fst (Watchdog_fine wd w d)) = next_handle w
              \<and> (\<forall>h evs'. h < next_handle w \<longrightarrow>
                    run_timer env (snd (wd_run env (Watchdog_fine wd w d) evs')) h = None)"
    by (intro allI) (rule 3)
  have a4: "\<forall>h out w'. run_timer env w h = Some (out, w') \<longrightarrow>
              h = watchdog_handle wd \<and> out = Return ()
              \<and> (\<exists>t\<in>set (scheduled w). handle_id t = h
                     \<and> tasks w' = tasks w @ [ExitHandlerTask (exit_bot_coro env (delay t))])
              \<and> pending w' = []
              \<and> (\<forall>evs'. run_timer env (snd (wd_run env (wd, w') evs')) h = None)"
    by (intro allI) (rule 4)
  have a5: "\<forall>d. exit_bot_coro env d
              = (case bot env of
                   None \<Rightarrow> None
                 | Some b \<Rightarrow> Some (SendMessage (MANAGER env) (''WATCHDOG: '' @ exit_bot_msg d)))"
    by (intro allI) (rule 5)
  show ?thesis
    using 1 2 a3 a4 a5 by (intro conjI)
qed

theorem watchdog_cycles_witness:
  "scheduled running_loop = []
   \<and> wd_run with_bot (Watchdog_init running_loop 300) [Reset 900]
       = (\<lparr>watchdog_handle = 1\<rparr>, rearmed_loop)
   \<and> length (pending rearmed_loop) \<le> 1
   \<and> pending (snd (Watchdog_fine \<lparr>watchdog_handle = 1\<rparr> rearmed_loop 900)) = [2]
   \<and> run_timer with_bot
        (snd (wd_run with_bot (Watchdog_fine \<lparr>watchdog_handle = 1\<rparr> rearmed_loop 900) [])) 1 = None
   \<and> run_timer with_bot rearmed_loop 1 = Some (Return (), expired_loop)
   \<and> pending expired_loop = []
   \<and> run_timer with_bot (snd (wd_run with_bot (\<lparr>watchdog_handle = 1\<rparr>, expired_loop) [Reset 900])) 1
       = None"
proof -
  have a: "scheduled running_loop = []"
    by (simp add: running_loop_def)
  have b: "wd_run with_bot (Watchdog_init running_loop 300) [Reset 900]
             = (\<lparr>watchdog_handle = 1\<rparr>, rearmed_loop)"
    by (simp add: wd_run_def Watchdog_init_def Watchdog_fine_def call_later_def cancel_def
          running_loop_def rearmed_loop_def)
  have c: "run_timer with_bot rearmed_loop 1 = Some (Return (), expired_loop)"
    by (simp add: run_timer_def rearmed_loop_def expired_loop_def Watchdog_exit_bot_def
          shutdown_def critical_def create_task_def)
  note T = watchdog_cycles [OF a b]
  have 1: "length (pending rearmed_loop) \<le> 1"
    by (rule conjunct1 [OF T])
  note T3 = conjunct1 [OF conjunct2 [OF conjunct2 [OF T]]]
  have "pending (snd (Watchdog_fine \<lparr>watchdog_handle = 1\<rparr> rearmed_loop 900))
          = [watchdog_handle (fst (Watchdog_fine \<lparr>watchdog_handle = 1\<rparr> rearmed_loop 900))]"
    by (rule conjunct1 [OF spec [OF T3]])
  moreover have "watchdog_handle (fst (Watchdog_fine \<lparr>watchdog_handle = 1\<rparr> rearmed_loop 900))
          = next_handle rearmed_loop"
    by (rule conjunct1 [OF conjunct2 [OF spec [OF T3]]])
  ultimately have 2: "pending (snd (Watchdog_fine \<lparr>watchdog_handle = 1\<rparr> rearmed_loop 900)) = [2]"
    by (simp add: rearmed_loop_def)
  have h: "(1::nat) < next_handle rearmed_loop"
    by (simp add: rearmed_loop_def)
  have 5: "run_timer with_bot
        (snd (wd_run with_bot (Watchdog_fine \<lparr>watchdog_handle = 1\<rparr> rearmed_loop 900) [])) 1 = None"
    by (rule mp [OF spec [OF spec [OF conjunct2 [OF conjunct2 [OF spec [OF T3]]]]] h])
  note T4 = mp [OF spec [OF spec [OF spec [OF conjunct1 [OF conjunct2 [OF conjunct2 [OF conjunct2 [OF T]]]]]]] c]
  have 3: "pending expired_loop = []"
    by (rule conjunct1 [OF conjunct2 [OF conjunct2 [OF conjunct2 [OF T4]]]])
  have 4: "run_timer with_bot (snd (wd_run with_bot (\<lparr>watchdog_handle = 1\<rparr>, expired_loop) [Reset 900])) 1
       = None"
    by (rule spec [OF conjunct2 [OF conjunct2 [OF conjunct2 [OF conjunct2 [OF T4]]]]])
  show ?thesis
    using a b 1 2 5 c 3 4 by (intro conjI)
qed

end
